theory Spec2Isabelle
  imports Complex_Main "HOL-Library.Word"
begin

section \<open>The tracking engine (ts/opencv-tracking.ts)\<close>

text \<open>
  JavaScript numbers are modelled as mathematical numbers: pixel coordinates, the search
  margin and confidences as \<open>real\<close>, frame numbers and the integer results of
  \<open>Math.round\<close> as \<open>int\<close>. The platform and OpenCV.js calls whose results depend on the
  video (the abort signal, seeking and frame extraction, \<open>cv.matchTemplate\<close> with
  \<open>cv.minMaxLoc\<close>, \<open>cv.calcOpticalFlowPyrLK\<close>) are fields of an environment record.
\<close>

subsection \<open>Data model\<close>

record ROI =
  roi_x :: real
  roi_y :: real
  roi_width :: real
  roi_height :: real

datatype algorithm = Template | OpticalFlow

record video =
  videoWidth :: int
  videoHeight :: int

record TrackingConfig =
  cfg_video :: video
  roi :: ROI
  startFrame :: int
  endFrame :: int
  algorithm :: algorithm
  searchMargin :: real

record TrackingResult =
  frameNumber :: int
  x :: real
  y :: real
  confidence :: real

record TrackingProgress =
  frame :: int
  total :: int

datatype item = Progress TrackingProgress | Result TrackingResult

text \<open>\<open>cv.Rect\<close> and the part of \<open>cv.MinMaxLocResult\<close> that the tracker reads.\<close>

record Rect =
  rect_x :: int
  rect_y :: int
  rect_width :: int
  rect_height :: int

record MinMaxLocResult =
  maxLoc_x :: int
  maxLoc_y :: int
  maxVal :: real

text \<open>
  A thrown JavaScript error, by its \<open>name\<close> and its \<open>message\<close>. The ones that occur:
  the rejection of \<open>seekToFrame\<close>, a plain \<open>Error\<close> whose message ends in the time it
  was asked to seek to (\<open>toStr\<close> is the conversion of a number to a string in a template
  literal); the failure of \<open>extractFrameImageData\<close> to get a 2d canvas context, a plain
  \<open>Error\<close> too; and the \<open>BindingError\<close> that OpenCV.js throws when \<open>delete\<close> is
  called on a \<open>cv.Mat\<close> that is already deleted.
\<close>

record error =
  err_name :: string
  err_message :: string

definition seekTimeoutError :: "(real \<Rightarrow> string) \<Rightarrow> real \<Rightarrow> error" where
  "seekTimeoutError toStr time =
     \<lparr>err_name = ''Error'', err_message = ''Seek timed out at time='' @ toStr time\<rparr>"

definition canvasContextError :: error where
  "canvasContextError = \<lparr>err_name = ''Error'', err_message = ''Failed to get 2d canvas context''\<rparr>"

definition bindingError :: error where
  "bindingError = \<lparr>err_name = ''BindingError'', err_message = ''Mat instance already deleted''\<rparr>"

text \<open>
  \<open>cv.Mat.delete\<close> on a Mat that is live (\<open>True\<close>) or already deleted (\<open>False\<close>): the
  error it throws, if any.
\<close>

definition Mat_delete :: "bool \<Rightarrow> error option" where
  "Mat_delete live = (if live then None else Some bindingError)"

text \<open>
  How a generator run ended: the loop ran past \<open>endFrame\<close>; the \<open>signal.aborted\<close>
  check at the top of the iteration for the given frame returned; the tracking-lost branch
  at the given frame returned after its zero-confidence result; an exception left the
  generator at the given frame.
\<close>

datatype finish = Completed | Cancelled int | Lost int | Threw int error

text \<open>
  The environment of one run.
  \<^item> \<open>aborted f\<close>: the value of \<open>signal.aborted\<close> read at the top of the iteration for frame \<open>f\<close>;
  \<^item> \<open>fetch f\<close>: \<open>seekToFrame\<close>, \<open>extractFrameImageData\<close> and \<open>imageDataToGray\<close> for
    frame \<open>f\<close>: \<open>None\<close> when they succeed, the error thrown otherwise;
  \<^item> \<open>matchTemplate f r w h\<close>: \<open>cv.minMaxLoc\<close> of \<open>cv.matchTemplate\<close> of the region
    \<open>r\<close> of frame \<open>f\<close> against the \<open>w \<times> h\<close> template;
  \<^item> \<open>calcOpticalFlowPyrLK f' f p\<close>: the status byte and the new point computed from
    the frames \<open>f'\<close> (previous) and \<open>f\<close> (current) and the previous point \<open>p\<close>.
\<close>

record env =
  aborted :: "int \<Rightarrow> bool"
  fetch :: "int \<Rightarrow> error option"
  matchTemplate :: "int \<Rightarrow> Rect \<Rightarrow> int \<Rightarrow> int \<Rightarrow> MinMaxLocResult"
  calcOpticalFlowPyrLK :: "int \<Rightarrow> int \<Rightarrow> real \<times> real \<Rightarrow> 8 word \<times> real \<times> real"

text \<open>One iteration of a tracker loop: it returns or throws after its yields, or goes on.\<close>

datatype 'st step = Stop "item list" finish | Continue "item list" 'st

subsection \<open>Helpers\<close>

text \<open>\<open>Math.round\<close>: the nearest integer, halves rounded up.\<close>

definition Math_round :: "real \<Rightarrow> int" where
  "Math_round v = \<lfloor>v + 1 / 2\<rfloor>"

definition clamp :: "'a::linorder \<Rightarrow> 'a \<Rightarrow> 'a \<Rightarrow> 'a" where
  "clamp v mn mx = max mn (min mx v)"

fun results_of :: "item list \<Rightarrow> TrackingResult list" where
  "results_of [] = []"
| "results_of (Progress p # is) = results_of is"
| "results_of (Result r # is) = r # results_of is"

fun progress_of :: "item list \<Rightarrow> TrackingProgress list" where
  "progress_of [] = []"
| "progress_of (Progress p # is) = p # progress_of is"
| "progress_of (Result r # is) = progress_of is"

definition progress_item :: "TrackingConfig \<Rightarrow> int \<Rightarrow> item" where
  "progress_item cfg frameNum =
     Progress \<lparr>frame = frameNum - startFrame cfg, total = endFrame cfg - startFrame cfg\<rparr>"

subsection \<open>templateMatchTrack\<close>

text \<open>The ROI rounded and clamped into the video, then cut at the right and lower edge.\<close>

definition roiRect :: "TrackingConfig \<Rightarrow> Rect" where
  "roiRect cfg =
    (let v = cfg_video cfg; r = roi cfg;
         rect = \<lparr>rect_x = clamp (Math_round (roi_x r)) 0 (videoWidth v - 1),
                 rect_y = clamp (Math_round (roi_y r)) 0 (videoHeight v - 1),
                 rect_width = clamp (Math_round (roi_width r)) 1 (videoWidth v),
                 rect_height = clamp (Math_round (roi_height r)) 1 (videoHeight v)\<rparr>;
         rect = rect\<lparr>rect_width := min (rect_width rect) (videoWidth v - rect_x rect)\<rparr>;
         rect = rect\<lparr>rect_height := min (rect_height rect) (videoHeight v - rect_y rect)\<rparr>
     in rect)"

text \<open>\<open>template.cols\<close> and \<open>template.rows\<close> of \<open>startGray.roi(roiRect)\<close>.\<close>

definition templateW :: "TrackingConfig \<Rightarrow> int" where
  "templateW cfg = rect_width (roiRect cfg)"

definition templateH :: "TrackingConfig \<Rightarrow> int" where
  "templateH cfg = rect_height (roiRect cfg)"

text \<open>The search window around the match center \<open>(cx, cy)\<close>, clamped to the video.\<close>

definition searchRect :: "TrackingConfig \<Rightarrow> real \<times> real \<Rightarrow> Rect" where
  "searchRect cfg c =
    (let v = cfg_video cfg;
         searchX = clamp (Math_round (fst c - real_of_int (templateW cfg) / 2 - searchMargin cfg))
                     0 (videoWidth v - 1);
         searchY = clamp (Math_round (snd c - real_of_int (templateH cfg) / 2 - searchMargin cfg))
                     0 (videoHeight v - 1);
         searchW = Math_round (real_of_int (templateW cfg) + 2 * searchMargin cfg);
         searchH = Math_round (real_of_int (templateH cfg) + 2 * searchMargin cfg);
         searchW = min searchW (videoWidth v - searchX);
         searchH = min searchH (videoHeight v - searchY)
     in \<lparr>rect_x = searchX, rect_y = searchY, rect_width = searchW, rect_height = searchH\<rparr>)"

definition template_fits :: "TrackingConfig \<Rightarrow> Rect \<Rightarrow> bool" where
  "template_fits cfg sr \<longleftrightarrow> \<not> (rect_width sr < templateW cfg \<or> rect_height sr < templateH cfg)"

text \<open>The body of the per-frame loop; the state is the match center.\<close>

definition templateMatch_body ::
    "TrackingConfig \<Rightarrow> env \<Rightarrow> int \<Rightarrow> real \<times> real \<Rightarrow> (real \<times> real) step" where
  "templateMatch_body cfg e frameNum c =
    (if aborted e frameNum then Stop [] (Cancelled frameNum)
     else case fetch e frameNum of
       Some err \<Rightarrow> Stop [progress_item cfg frameNum] (Threw frameNum err)
     | None \<Rightarrow>
        (let sr = searchRect cfg c in
         if rect_width sr < templateW cfg \<or> rect_height sr < templateH cfg then
           Stop [progress_item cfg frameNum,
                 Result \<lparr>frameNumber = frameNum, x = fst c, y = snd c, confidence = 0\<rparr>]
                (Lost frameNum)
         else
           (let minMax = matchTemplate e frameNum sr (templateW cfg) (templateH cfg);
                matchX = rect_x sr + maxLoc_x minMax;
                matchY = rect_y sr + maxLoc_y minMax;
                c' = (real_of_int matchX + real_of_int (templateW cfg) / 2,
                      real_of_int matchY + real_of_int (templateH cfg) / 2)
            in Continue [progress_item cfg frameNum,
                         Result \<lparr>frameNumber = frameNum, x = fst c', y = snd c',
                                 confidence = maxVal minMax\<rparr>]
                        c')))"

function templateMatch_loop ::
    "TrackingConfig \<Rightarrow> env \<Rightarrow> int \<Rightarrow> real \<times> real \<Rightarrow> item list \<times> finish" where
  "templateMatch_loop cfg e frameNum c =
    (if frameNum \<le> endFrame cfg then
       (case templateMatch_body cfg e frameNum c of
          Stop ys fin \<Rightarrow> (ys, fin)
        | Continue ys c' \<Rightarrow> apfst ((@) ys) (templateMatch_loop cfg e (frameNum + 1) c'))
     else ([], Completed))"
  by pat_completeness auto
termination
  by (relation "measure (\<lambda>(cfg, e, frameNum, c). nat (endFrame cfg + 1 - frameNum))") auto

text \<open>The match center starts at the center of the clamped ROI.\<close>

definition initialCenter :: "TrackingConfig \<Rightarrow> real \<times> real" where
  "initialCenter cfg =
    (real_of_int (rect_x (roiRect cfg)) + real_of_int (rect_width (roiRect cfg)) / 2,
     real_of_int (rect_y (roiRect cfg)) + real_of_int (rect_height (roiRect cfg)) / 2)"

definition templateMatchTrack :: "TrackingConfig \<Rightarrow> env \<Rightarrow> item list \<times> finish" where
  "templateMatchTrack cfg e =
    (case fetch e (startFrame cfg) of
       Some err \<Rightarrow> ([], Threw (startFrame cfg) err)
     | None \<Rightarrow> templateMatch_loop cfg e (startFrame cfg + 1) (initialCenter cfg))"

subsection \<open>opticalFlowTrack\<close>

text \<open>
  The \<open>finally\<close> block of \<open>opticalFlowTrack\<close>: \<open>prevGray.delete()\<close> and
  \<open>prevPts.delete()\<close>. The two Mats are deleted and reassigned together, so one flag
  says whether they are live; when they are not, the first \<open>delete\<close> throws and the
  exception replaces the way the \<open>try\<close> block was left.
\<close>

definition opticalFlow_finally :: "bool \<Rightarrow> int \<Rightarrow> finish \<Rightarrow> finish" where
  "opticalFlow_finally prevLive frameNum fin =
    (case Mat_delete prevLive of Some err \<Rightarrow> Threw frameNum err | None \<Rightarrow> fin)"

text \<open>
  The state is the number of the frame held in \<open>prevGray\<close> and the point held in
  \<open>prevPts\<close>. At the top of every iteration the two Mats are live: they are fresh before
  the loop and reassigned in the tracked branch. Each iteration deletes them after the
  flow is computed; the tracked branch replaces them by the current frame and the new
  point, the lost branch does not, so it reaches the \<open>finally\<close> block with deleted
  Mats.
\<close>

definition opticalFlow_body ::
    "TrackingConfig \<Rightarrow> env \<Rightarrow> int \<Rightarrow> int \<times> real \<times> real \<Rightarrow> (int \<times> real \<times> real) step" where
  "opticalFlow_body cfg e frameNum st =
    (if aborted e frameNum then Stop [] (opticalFlow_finally True frameNum (Cancelled frameNum))
     else case fetch e frameNum of
       Some err \<Rightarrow>
         Stop [progress_item cfg frameNum] (opticalFlow_finally True frameNum (Threw frameNum err))
     | None \<Rightarrow>
        (let (status, newX, newY) = calcOpticalFlowPyrLK e (fst st) frameNum (snd st);
             tracked = (status = 1)
         in if tracked then
              Continue [progress_item cfg frameNum,
                        Result \<lparr>frameNumber = frameNum, x = newX, y = newY, confidence = 1\<rparr>]
                       (frameNum, newX, newY)
            else
              Stop [progress_item cfg frameNum,
                    Result \<lparr>frameNumber = frameNum, x = newX, y = newY, confidence = 0\<rparr>]
                   (opticalFlow_finally False frameNum (Lost frameNum))))"

function opticalFlow_loop ::
    "TrackingConfig \<Rightarrow> env \<Rightarrow> int \<Rightarrow> int \<times> real \<times> real \<Rightarrow> item list \<times> finish" where
  "opticalFlow_loop cfg e frameNum st =
    (if frameNum \<le> endFrame cfg then
       (case opticalFlow_body cfg e frameNum st of
          Stop ys fin \<Rightarrow> (ys, fin)
        | Continue ys st' \<Rightarrow> apfst ((@) ys) (opticalFlow_loop cfg e (frameNum + 1) st'))
     else ([], opticalFlow_finally True frameNum Completed))"
  by pat_completeness auto
termination
  by (relation "measure (\<lambda>(cfg, e, frameNum, st). nat (endFrame cfg + 1 - frameNum))") auto

definition initialPoint :: "TrackingConfig \<Rightarrow> real \<times> real" where
  "initialPoint cfg =
    (roi_x (roi cfg) + roi_width (roi cfg) / 2, roi_y (roi cfg) + roi_height (roi cfg) / 2)"

definition opticalFlowTrack :: "TrackingConfig \<Rightarrow> env \<Rightarrow> item list \<times> finish" where
  "opticalFlowTrack cfg e =
    (case fetch e (startFrame cfg) of
       Some err \<Rightarrow> ([], Threw (startFrame cfg) err)
     | None \<Rightarrow> opticalFlow_loop cfg e (startFrame cfg + 1) (startFrame cfg, initialPoint cfg))"

subsection \<open>trackObject\<close>

definition trackObject :: "TrackingConfig \<Rightarrow> env \<Rightarrow> item list \<times> finish" where
  "trackObject cfg e =
    (if algorithm cfg = OpticalFlow then opticalFlowTrack cfg e else templateMatchTrack cfg e)"

text \<open>
  What closing the generator does when the consumer leaves its loop right after it
  received the result \<open>r\<close> (\<open>break\<close> calls the generator's \<open>return\<close>, which runs the
  \<open>finally\<close> block at the suspended \<open>yield\<close>): the error thrown, if any. The template
  tracker deletes its template, which is live at every \<open>yield\<close>. The optical-flow
  tracker is suspended at one of its two result yields: the tracked one (confidence 1)
  follows the reassignment of \<open>prevGray\<close> and \<open>prevPts\<close>, the lost one (confidence 0)
  does not.
\<close>

definition trackObject_return :: "TrackingConfig \<Rightarrow> TrackingResult \<Rightarrow> error option" where
  "trackObject_return cfg r =
    (if algorithm cfg = OpticalFlow then Mat_delete (confidence r = 1) else None)"

subsection \<open>seekToFrame\<close>

text \<open>
  The media element as \<open>seekToFrame\<close> sees it: the playback position and the seeks
  started by assigning \<open>currentTime\<close>. A call of \<open>seekToFrame\<close> is the media element,
  whether its \<open>seeked\<close> listener is registered, the delay of its timer while the timer is
  armed, and the state of its promise.
\<close>

record media =
  currentTime :: real
  seeks :: "real list"

datatype promise = Pending | Resolved | Rejected error

record seek =
  seek_video :: media
  onSeekedRegistered :: bool
  timeoutId :: "nat option"
  settled :: promise

text \<open>Resolving or rejecting a promise that is already settled does nothing.\<close>

definition settle :: "promise \<Rightarrow> seek \<Rightarrow> seek" where
  "settle p sk = (if settled sk = Pending then sk\<lparr>settled := p\<rparr> else sk)"

text \<open>The promise executor, which runs synchronously.\<close>

definition seekToFrame :: "media \<Rightarrow> real \<Rightarrow> seek" where
  "seekToFrame v time =
    (let sk = \<lparr>seek_video = v, onSeekedRegistered = False, timeoutId = None, settled = Pending\<rparr>
     in if \<bar>currentTime v - time\<bar> < 1 / 1000 then settle Resolved sk
        else (let sk1 = sk\<lparr>timeoutId := Some 5000\<rparr>;
                  sk2 = sk1\<lparr>onSeekedRegistered := True\<rparr>
              in sk2\<lparr>seek_video := v\<lparr>currentTime := time, seeks := seeks v @ [time]\<rparr>\<rparr>))"

text \<open>
  The two tasks the event loop can run for a pending seek: the \<open>seeked\<close> event, which
  calls \<open>onSeeked\<close> if the listener is still registered, and the timer, which calls its
  callback if it was not cleared.
\<close>

definition onSeeked :: "seek \<Rightarrow> seek" where
  "onSeeked sk =
    (if onSeekedRegistered sk then
       settle Resolved (sk\<lparr>timeoutId := None, onSeekedRegistered := False\<rparr>)
     else sk)"

definition onTimeout :: "(real \<Rightarrow> string) \<Rightarrow> real \<Rightarrow> seek \<Rightarrow> seek" where
  "onTimeout toStr time sk =
    (case timeoutId sk of
       Some ms \<Rightarrow>
         settle (Rejected (seekTimeoutError toStr time))
           (sk\<lparr>timeoutId := None, onSeekedRegistered := False\<rparr>)
     | None \<Rightarrow> sk)"
section \<open>The auto-track session (submit handler of autoTrackModal)\<close>

subsection \<open>State\<close>

text \<open>
  A \<open>Point\<close> of a track: the number of the frame it was constructed with and its
  position. A timeline frame with the fields the handler uses. A data-table row.
\<close>

record Point =
  pt_frame :: int
  pt_x :: real
  pt_y :: real

record Frame =
  frame_number :: int
  frame_points :: "Point list"

record Row =
  row_t :: real
  row_x :: real
  row_y :: real

record Track =
  points :: "int \<rightharpoonup> Point"
  table :: "Row list"

record Timeline =
  frames :: "int \<rightharpoonup> Frame"
  activeFrames :: "int list"
  frameCount :: int
  currentFrame :: int

text \<open>
  The compound action handed to \<open>master.change\<close>: its two closures share the list
  \<open>addedPoints\<close>, which is all they capture.
\<close>

datatype change = AutoTrackBatch "Point list"

datatype modal_text = NoText | ProgressText TrackingProgress | LostText TrackingResult

record button =
  disabled :: bool
  innerText :: string

datatype cursor = Default | Crosshair

datatype mode = DefaultMode | AutotrackRoi

record session =
  track :: "Track option"
  timeline :: Timeline
  history :: "change list"
  currentROI :: "ROI option"
  roiShape :: bool
  addBackground :: bool
  stageCursor :: cursor
  stateMode :: mode
  modalShown :: bool
  modalText :: modal_text
  modalFields :: bool
  submitButton :: "button option"
  trackingVideo :: bool

record ModalExportData =
  data_algorithm :: string
  data_startFrame :: string
  data_endFrame :: string
  data_searchMargin :: string

datatype alert =
    AlgorithmAlert
  | NumbersAlert
  | EndFrameAlert
  | RangeAlert int
  | OverwriteConfirm nat
  | FailedAlert string
  | TrackedAlert nat
  | CancelledAlert nat

datatype outcome = Returned | LoadFailed | Finished

text \<open>
  What the handler gets from outside the sources: \<open>parseInt(s, 10)\<close> (\<open>None\<close> is NaN),
  the user's answer to the overwrite dialog, whether the detached video loads, its size,
  the environment of the tracker, whether the cancel button was clicked while tracking
  ran, and \<open>Point.export\<close> reduced to the row it yields.
\<close>

record world =
  parseInt :: "string \<Rightarrow> int option"
  confirmed :: bool
  loaded :: bool
  loadedVideo :: video
  trackerEnv :: env
  cancelClicked :: bool
  export :: "Point \<Rightarrow> Row option"

subsection \<open>Point.remove and Point.unRemove\<close>

text \<open>
  Modelled from the spec: \<open>Point.remove\<close> (class \<open>Point\<close> is not among the
  sources). The spec gives \<open>track.points\<close> as the mapping from frame number to the one
  point of the track at that frame, and \<open>remove\<close> as the operation that takes a point
  out of its track.
\<close>

definition Point_remove :: "Point \<Rightarrow> Track \<Rightarrow> Track" where
  "Point_remove p tr = tr\<lparr>points := (points tr)(pt_frame p := None)\<rparr>"

text \<open>
  Modelled from the spec: \<open>Point.unRemove\<close> (class \<open>Point\<close> is not among the
  sources), the operation that puts a removed point back into \<open>track.points\<close> at its
  frame.
\<close>

definition Point_unRemove :: "Point \<Rightarrow> Track \<Rightarrow> Track" where
  "Point_unRemove p tr = tr\<lparr>points := (points tr)(pt_frame p \<mapsto> p)\<rparr>"

subsection \<open>Timeline, data table, undo system and modal\<close>

text \<open>
  Modelled from the spec: \<open>Timeline.seek\<close> (class \<open>Timeline\<close> is not among the
  sources). The spec has the cleanup restore the original playhead position with it.
\<close>

definition Timeline_seek :: "int \<Rightarrow> Timeline \<Rightarrow> Timeline" where
  "Timeline_seek f tline = tline\<lparr>currentFrame := f\<rparr>"

text \<open>
  Modelled from the spec: \<open>Table.addRow\<close> (the data table is not among the sources).
  The spec has a data-table row appended for each committed point.
\<close>

definition Table_addRow :: "Row \<Rightarrow> Track \<Rightarrow> Track" where
  "Table_addRow row tr = tr\<lparr>table := table tr @ [row]\<rparr>"

text \<open>
  Modelled from the spec: \<open>master.change\<close> (class \<open>Project\<close> is not among the
  sources). The spec has the undo system accept one compound action per commit; the
  history is the list of the actions it has accepted.
\<close>

definition master_change :: "change \<Rightarrow> session \<Rightarrow> session" where
  "master_change c s = s\<lparr>history := history s @ [c]\<rparr>"

text \<open>
  Modelled from the spec: \<open>Modal.setText\<close> (class \<open>Modal\<close> is not among the
  sources): it sets the status text of the form modal.
\<close>

definition Modal_setText :: "modal_text \<Rightarrow> session \<Rightarrow> session" where
  "Modal_setText t s = s\<lparr>modalText := t\<rparr>"

text \<open>
  Modelled from the spec: \<open>Modal.hide\<close> (class \<open>Modal\<close> is not among the sources):
  the form modal is no longer shown.
\<close>

definition Modal_hide :: "session \<Rightarrow> session" where
  "Modal_hide s = s\<lparr>modalShown := False\<rparr>"

text \<open>
  Modelled from the spec: \<open>Modal.clear\<close> (class \<open>Modal\<close> is not among the sources):
  the fields of the form modal are emptied.
\<close>

definition Modal_clear :: "session \<Rightarrow> session" where
  "Modal_clear s = s\<lparr>modalFields := False\<rparr>"

subsection \<open>Validation\<close>

definition validate :: "(string \<Rightarrow> int option) \<Rightarrow> ModalExportData \<Rightarrow> int \<Rightarrow> alert + int \<times> int \<times> int" where
  "validate parse d count =
    (case (parse (data_startFrame d), parse (data_endFrame d), parse (data_searchMargin d)) of
       (Some sf, Some ef, Some m) \<Rightarrow>
         if sf \<ge> ef then Inl EndFrameAlert
         else if sf < 0 \<or> ef > count then Inl (RangeAlert count)
         else Inr (sf, ef, m)
     | _ \<Rightarrow> Inl NumbersAlert)"

definition existingCount :: "Track \<Rightarrow> int \<Rightarrow> int \<Rightarrow> nat" where
  "existingCount tr sf ef = length (filter (\<lambda>f. points tr f \<noteq> None) [sf + 1..ef])"

subsection \<open>Consuming the result stream\<close>

text \<open>
  The \<open>for await\<close> loop over the yielded items: the accumulated results, the text last
  given to \<open>setText\<close>, and whether the loop left by \<open>break\<close>.
\<close>

fun consume ::
    "item list \<Rightarrow> TrackingResult list \<Rightarrow> modal_text \<Rightarrow> TrackingResult list \<times> modal_text \<times> bool" where
  "consume [] results txt = (results, txt, False)"
| "consume (Progress p # is) results txt = consume is results (ProgressText p)"
| "consume (Result r # is) results txt =
     (if confidence r < 1 / 2 then (results, LostText r, True)
      else consume is (results @ [r]) txt)"

subsection \<open>Committing the batch\<close>

fun commit_loop ::
    "(Point \<Rightarrow> Row option) \<Rightarrow> TrackingResult list \<Rightarrow> Track \<Rightarrow> Timeline \<Rightarrow> Point list \<Rightarrow>
       Track \<times> Timeline \<times> Point list" where
  "commit_loop ex [] tr tline addedPoints = (tr, tline, addedPoints)"
| "commit_loop ex (r # rs) tr tline addedPoints =
    (case frames tline (frameNumber r) of
       None \<Rightarrow> commit_loop ex rs tr tline addedPoints
     | Some fr \<Rightarrow>
        (let tr1 = (case points tr (frame_number fr) of
                      Some existing \<Rightarrow> Point_remove existing tr
                    | None \<Rightarrow> tr);
             point = \<lparr>pt_frame = frame_number fr, pt_x = x r, pt_y = y r\<rparr>;
             tr2 = tr1\<lparr>points := (points tr1)(frame_number fr \<mapsto> point)\<rparr>;
             tl1 = tline\<lparr>frames := (frames tline)(frameNumber r \<mapsto>
                                      fr\<lparr>frame_points := frame_points fr @ [point]\<rparr>),
                      activeFrames := activeFrames tline @ [frame_number fr]\<rparr>;
             tr3 = (case ex point of
                      Some pointData \<Rightarrow> Table_addRow pointData tr2
                    | None \<Rightarrow> tr2)
         in commit_loop ex rs tr3 tl1 (addedPoints @ [point])))"

definition commit :: "(Point \<Rightarrow> Row option) \<Rightarrow> TrackingResult list \<Rightarrow> Track \<Rightarrow> session \<Rightarrow> session" where
  "commit ex results tr s =
    (if length results > 0 then
       (let (tr', tl', addedPoints) = commit_loop ex results tr (timeline s) []
        in master_change (AutoTrackBatch addedPoints) (s\<lparr>track := Some tr', timeline := tl'\<rparr>))
     else s)"

text \<open>The two closures of the registered action, run on the track.\<close>

fun undo :: "change \<Rightarrow> Track \<Rightarrow> Track" where
  "undo (AutoTrackBatch addedPoints) tr = fold Point_remove addedPoints tr"

fun redo :: "change \<Rightarrow> Track \<Rightarrow> Track" where
  "redo (AutoTrackBatch addedPoints) tr = fold Point_unRemove addedPoints tr"

subsection \<open>Cleanup\<close>

definition cleanupROISelection :: "session \<Rightarrow> session" where
  "cleanupROISelection s =
     s\<lparr>roiShape := False, currentROI := None, stageCursor := Default, addBackground := False,
       stateMode := DefaultMode\<rparr>"

definition cleanup :: "int \<Rightarrow> session \<Rightarrow> session" where
  "cleanup originalFrame s =
    (let s1 = s\<lparr>timeline := Timeline_seek originalFrame (timeline s)\<rparr>;
         s2 = s1\<lparr>trackingVideo := False\<rparr>;
         s3 = s2\<lparr>submitButton :=
                   map_option (\<lambda>b. b\<lparr>disabled := False, innerText := ''Track''\<rparr>) (submitButton s2)\<rparr>;
         s4 = Modal_clear (Modal_hide (Modal_setText NoText s3))
     in cleanupROISelection s4)"

subsection \<open>The handler\<close>

fun is_Cancelled :: "finish \<Rightarrow> bool" where
  "is_Cancelled (Cancelled f) = True"
| "is_Cancelled _ = False"

text \<open>
  From the disabling of the submit button to the completion message. The handler's flag
  \<open>aborted\<close> is set by the click on the cancel button, which also aborts the signal: it
  is set when the button was clicked or the run ended at an abort check (which a loop
  left by \<open>break\<close> never reaches). The \<open>catch\<close> block gets what the generator throws:
  when the loop is left by \<open>break\<close>, at the result kept in the modal text, what closing
  the generator throws; otherwise what ended the run.
\<close>

definition runTracking :: "world \<Rightarrow> TrackingConfig \<Rightarrow> Track \<Rightarrow> int \<Rightarrow> session \<Rightarrow> session \<times> alert list" where
  "runTracking w config tr originalFrame s =
    (let s1 = s\<lparr>submitButton :=
                  map_option (\<lambda>b. b\<lparr>disabled := True, innerText := ''Tracking...''\<rparr>) (submitButton s)\<rparr>;
         (items, fin) = trackObject config (trackerEnv w);
         (results, txt, broke) = consume items [] (modalText s1);
         abortedFlag = (cancelClicked w \<or> (\<not> broke \<and> is_Cancelled fin));
         thrown = (if broke then
                     (case txt of LostText r \<Rightarrow> trackObject_return config r | _ \<Rightarrow> None)
                   else (case fin of Threw f err \<Rightarrow> Some err | _ \<Rightarrow> None));
         failed = (case thrown of
                     Some err \<Rightarrow> if abortedFlag then [] else [FailedAlert (err_message err)]
                   | None \<Rightarrow> []);
         s2 = Modal_setText txt s1;
         s3 = commit (export w) results tr s2;
         s4 = cleanup originalFrame s3;
         completion = (if length results > 0 \<and> \<not> abortedFlag then [TrackedAlert (length results)]
                       else if abortedFlag then [CancelledAlert (length results)]
                       else [])
     in (s4, failed @ completion))"

definition autoTrackSubmit ::
    "world \<Rightarrow> ModalExportData option \<Rightarrow> session \<Rightarrow> session \<times> alert list \<times> outcome" where
  "autoTrackSubmit w data s =
    (case (data, currentROI s, track s) of
       (Some d, Some r, Some tr) \<Rightarrow>
         if data_algorithm d \<noteq> ''template'' \<and> data_algorithm d \<noteq> ''optical-flow'' then
           (s, [AlgorithmAlert], Returned)
         else
           (case validate (parseInt w) d (frameCount (timeline s)) of
              Inl a \<Rightarrow> (s, [a], Returned)
            | Inr (sf, ef, m) \<Rightarrow>
               (let n = existingCount tr sf ef;
                    asked = (if n > 0 then [OverwriteConfirm n] else [])
                in if n > 0 \<and> \<not> confirmed w then (s, asked, Returned)
                   else
                     (let originalFrame = currentFrame (timeline s);
                          s1 = s\<lparr>trackingVideo := True\<rparr>
                      in if \<not> loaded w then (s1, asked, LoadFailed)
                         else
                           (let config = \<lparr>cfg_video = loadedVideo w, roi = r, startFrame = sf,
                                           endFrame = ef,
                                           algorithm = (if data_algorithm d = ''optical-flow''
                                                        then OpticalFlow else Template),
                                           searchMargin = real_of_int m\<rparr>;
                                (s2, alerts) = runTracking w config tr originalFrame s1
                            in (s2, asked @ alerts, Finished)))))
     | _ \<Rightarrow> (s, [], Returned))"
section \<open>Auxiliary notions for the proofs\<close>

text \<open>
  The forms a run of either tracker can take from the iteration for frame \<open>f\<close> on: one
  progress record and one result per completed frame, then one of the endings: past the
  last frame, at the abort check, by an exception after the progress record, or after a
  zero-confidence result (by a return or by an exception).
\<close>

inductive run_from :: "TrackingConfig \<Rightarrow> env \<Rightarrow> int \<Rightarrow> item list \<Rightarrow> finish \<Rightarrow> bool"
  for cfg :: TrackingConfig and e :: env where
  rf_completed: "endFrame cfg < f \<Longrightarrow> run_from cfg e f [] Completed"
| rf_cancelled: "f \<le> endFrame cfg \<Longrightarrow> aborted e f \<Longrightarrow> run_from cfg e f [] (Cancelled f)"
| rf_threw: "f \<le> endFrame cfg \<Longrightarrow> \<not> aborted e f \<Longrightarrow>
     run_from cfg e f [progress_item cfg f] (Threw f err)"
| rf_lost: "f \<le> endFrame cfg \<Longrightarrow> \<not> aborted e f \<Longrightarrow> frameNumber r = f \<Longrightarrow> confidence r = 0 \<Longrightarrow>
     fin = Lost f \<or> fin = Threw f err \<Longrightarrow>
     run_from cfg e f [progress_item cfg f, Result r] fin"
| rf_step: "f \<le> endFrame cfg \<Longrightarrow> \<not> aborted e f \<Longrightarrow> frameNumber r = f \<Longrightarrow>
     run_from cfg e (f + 1) rest fin \<Longrightarrow>
     run_from cfg e f (progress_item cfg f # Result r # rest) fin"

text \<open>A \<open>templateW \<times> templateH\<close> box centered at \<open>c\<close> lies inside the video.\<close>

definition inside_video :: "TrackingConfig \<Rightarrow> real \<times> real \<Rightarrow> bool" where
  "inside_video cfg c \<longleftrightarrow>
     real_of_int (templateW cfg) / 2 \<le> fst c \<and>
     fst c \<le> real_of_int (videoWidth (cfg_video cfg)) - real_of_int (templateW cfg) / 2 \<and>
     real_of_int (templateH cfg) / 2 \<le> snd c \<and>
     snd c \<le> real_of_int (videoHeight (cfg_video cfg)) - real_of_int (templateH cfg) / 2"

text \<open>
  The point the commit constructs for a result: none when the timeline has no frame of
  the result's frame number, else a point of that frame at the result's position.
\<close>

definition commit_point :: "Timeline \<Rightarrow> TrackingResult \<Rightarrow> Point option" where
  "commit_point tline r =
     map_option (\<lambda>fr. \<lparr>pt_frame = frame_number fr, pt_x = x r, pt_y = y r\<rparr>)
       (frames tline (frameNumber r))"

text \<open>The point the commit constructs from a result whose frame carries its own number.\<close>

definition point_of :: "TrackingResult \<Rightarrow> Point" where
  "point_of r = \<lparr>pt_frame = frameNumber r, pt_x = x r, pt_y = y r\<rparr>"

definition accepted :: "item list \<Rightarrow> TrackingResult list" where
  "accepted is = takeWhile (\<lambda>r. \<not> confidence r < 1 / 2) (results_of is)"

text \<open>
  The match center is the center of a template-sized box at an integer position inside
  the video.
\<close>

definition on_grid :: "TrackingConfig \<Rightarrow> real \<times> real \<Rightarrow> bool" where
  "on_grid cfg c \<longleftrightarrow>
     (\<exists>a b. c = (real_of_int a + real_of_int (templateW cfg) / 2,
                 real_of_int b + real_of_int (templateH cfg) / 2) \<and>
        0 \<le> a \<and> a + templateW cfg \<le> videoWidth (cfg_video cfg) \<and>
        0 \<le> b \<and> b + templateH cfg \<le> videoHeight (cfg_video cfg))"
section \<open>Example inputs\<close>

text \<open>
  The scenario of the spec: a 40 by 40 region at (100, 50), frames 10 to 15. The
  environment cancels from a given frame on, loses the optical flow at a given frame, and
  its matcher finds the template in the middle of the search window.
\<close>

definition ex_config :: "algorithm \<Rightarrow> real \<Rightarrow> TrackingConfig" where
  "ex_config alg margin =
     \<lparr>cfg_video = \<lparr>videoWidth = 640, videoHeight = 480\<rparr>,
      roi = \<lparr>roi_x = 100, roi_y = 50, roi_width = 40, roi_height = 40\<rparr>,
      startFrame = 10, endFrame = 15, algorithm = alg, searchMargin = margin\<rparr>"

definition ex_env :: "int \<Rightarrow> int \<Rightarrow> env" where
  "ex_env cancelFrom lostAt =
     \<lparr>aborted = (\<lambda>f. cancelFrom \<le> f),
      fetch = (\<lambda>f. None),
      matchTemplate = (\<lambda>f sr w h.
         \<lparr>maxLoc_x = (rect_width sr - w) div 2, maxLoc_y = (rect_height sr - h) div 2,
          maxVal = 1\<rparr>),
      calcOpticalFlowPyrLK = (\<lambda>f' f p. (if f < lostAt then 1 else 0, fst p + 1, snd p))\<rparr>"

definition ex_media :: media where
  "ex_media = \<lparr>currentTime = 1 / 3, seeks = []\<rparr>"

definition ex_toStr :: "real \<Rightarrow> string" where
  "ex_toStr t = (if t = 1 / 2 then ''0.5'' else ''?'')"

definition ex_parseInt :: "string \<Rightarrow> int option" where
  "ex_parseInt = map_of [(''10'', 10), (''15'', 15), (''20'', 20), (''25'', 25), (''-5'', - 5)]"

definition ex_data :: "string \<Rightarrow> string \<Rightarrow> ModalExportData" where
  "ex_data sf ef =
     \<lparr>data_algorithm = ''optical-flow'', data_startFrame = sf, data_endFrame = ef,
      data_searchMargin = ''20''\<rparr>"

definition ex_world :: "int \<Rightarrow> int \<Rightarrow> world" where
  "ex_world cancelFrom lostAt =
     \<lparr>parseInt = ex_parseInt, confirmed = True, loaded = True,
      loadedVideo = \<lparr>videoWidth = 640, videoHeight = 480\<rparr>,
      trackerEnv = ex_env cancelFrom lostAt, cancelClicked = False,
      export = (\<lambda>p. Some \<lparr>row_t = real_of_int (pt_frame p) / 30, row_x = pt_x p,
                             row_y = pt_y p\<rparr>)\<rparr>"

text \<open>A track with one point, at frame 11, on a timeline of frames 0 to 20.\<close>

definition ex_track :: Track where
  "ex_track = \<lparr>points = [11 \<mapsto> \<lparr>pt_frame = 11, pt_x = 3, pt_y = 4\<rparr>], table = []\<rparr>"

definition ex_session :: session where
  "ex_session =
     \<lparr>track = Some ex_track,
      timeline = \<lparr>frames = (\<lambda>n. if 0 \<le> n \<and> n \<le> 20
                                then Some \<lparr>frame_number = n, frame_points = []\<rparr> else None),
                  activeFrames = [], frameCount = 20, currentFrame = 10\<rparr>,
      history = [],
      currentROI = Some \<lparr>roi_x = 100, roi_y = 50, roi_width = 40, roi_height = 40\<rparr>,
      roiShape = True, addBackground = True, stageCursor = Default, stateMode = DefaultMode,
      modalShown = True, modalText = NoText, modalFields = True,
      submitButton = Some \<lparr>disabled = False, innerText = ''Track''\<rparr>,
      trackingVideo = False\<rparr>"

text \<open>
  The same session on a timeline whose frames are numbered 0 to 14 while its frame count
  is 15, so that a range ending at frame 15 passes the validation.
\<close>

definition ex_session_short :: session where
  "ex_session_short =
     ex_session\<lparr>timeline :=
       \<lparr>frames = (\<lambda>n. if 0 \<le> n \<and> n \<le> 14
                        then Some \<lparr>frame_number = n, frame_points = []\<rparr> else None),
        activeFrames = [], frameCount = 15, currentFrame = 10\<rparr>\<rparr>"

declare templateMatch_loop.simps [simp del]
declare opticalFlow_loop.simps [simp del]
section \<open>The shape of a run\<close>

lemma results_of_append: "results_of (xs @ ys) = results_of xs @ results_of ys"
  by (induction xs rule: results_of.induct) simp_all

lemma templateMatch_body_cases:
  "templateMatch_body cfg e f c = Stop ys fin \<Longrightarrow>
     (aborted e f \<and> ys = [] \<and> fin = Cancelled f) \<or>
     (\<not> aborted e f \<and> (\<exists>err. ys = [progress_item cfg f] \<and> fin = Threw f err)) \<or>
     (\<not> aborted e f \<and> (\<exists>r. ys = [progress_item cfg f, Result r] \<and> frameNumber r = f \<and>
        confidence r = 0 \<and> fin = Lost f))"
  "templateMatch_body cfg e f c = Continue ys c' \<Longrightarrow>
     \<not> aborted e f \<and> (\<exists>r. ys = [progress_item cfg f, Result r] \<and> frameNumber r = f)"
  by (auto simp: templateMatch_body_def Let_def split: if_splits option.splits)

lemma opticalFlow_finally_simps:
  "opticalFlow_finally True f fin = fin"
  "opticalFlow_finally False f fin = Threw f bindingError"
  by (simp_all add: opticalFlow_finally_def Mat_delete_def)

lemma opticalFlow_body_cases:
  "opticalFlow_body cfg e f st = Stop ys fin \<Longrightarrow>
     (aborted e f \<and> ys = [] \<and> fin = Cancelled f) \<or>
     (\<not> aborted e f \<and> (\<exists>err. ys = [progress_item cfg f] \<and> fin = Threw f err)) \<or>
     (\<not> aborted e f \<and> (\<exists>r. ys = [progress_item cfg f, Result r] \<and> frameNumber r = f \<and>
        confidence r = 0 \<and> fin = Threw f bindingError))"
  "opticalFlow_body cfg e f st = Continue ys st' \<Longrightarrow>
     \<not> aborted e f \<and> (\<exists>r. ys = [progress_item cfg f, Result r] \<and> frameNumber r = f)"
  by (auto simp: opticalFlow_body_def opticalFlow_finally_simps Let_def
      split: if_splits option.splits prod.splits)

lemma templateMatch_loop_run_from:
  "run_from cfg e f (fst (templateMatch_loop cfg e f c)) (snd (templateMatch_loop cfg e f c))"
proof (induction cfg e f c rule: templateMatch_loop.induct)
  case (1 cfg e f c)
  show ?case
  proof (cases "f \<le> endFrame cfg")
    case False
    then show ?thesis
      by (simp add: templateMatch_loop.simps [of cfg e f c] rf_completed)
  next
    case True
    show ?thesis
    proof (cases "templateMatch_body cfg e f c")
      case (Stop ys fin)
      from templateMatch_body_cases(1) [OF Stop] True show ?thesis
        by (auto simp: templateMatch_loop.simps [of cfg e f c] Stop
            intro: rf_cancelled rf_threw rf_lost)
    next
      case (Continue ys c')
      from templateMatch_body_cases(2) [OF Continue] obtain r where
        r: "\<not> aborted e f" "ys = [progress_item cfg f, Result r]" "frameNumber r = f"
        by blast
      from "1.IH" [OF True Continue]
      have "run_from cfg e (f + 1) (fst (templateMatch_loop cfg e (f + 1) c'))
              (snd (templateMatch_loop cfg e (f + 1) c'))" .
      with True r show ?thesis
        by (simp add: templateMatch_loop.simps [of cfg e f c] Continue rf_step)
    qed
  qed
qed

lemma opticalFlow_loop_run_from:
  "run_from cfg e f (fst (opticalFlow_loop cfg e f st)) (snd (opticalFlow_loop cfg e f st))"
proof (induction cfg e f st rule: opticalFlow_loop.induct)
  case (1 cfg e f st)
  show ?case
  proof (cases "f \<le> endFrame cfg")
    case False
    then show ?thesis
      by (simp add: opticalFlow_loop.simps [of cfg e f st] opticalFlow_finally_simps rf_completed)
  next
    case True
    show ?thesis
    proof (cases "opticalFlow_body cfg e f st")
      case (Stop ys fin)
      from opticalFlow_body_cases(1) [OF Stop] True show ?thesis
        by (auto simp: opticalFlow_loop.simps [of cfg e f st] Stop
            intro: rf_cancelled rf_threw rf_lost)
    next
      case (Continue ys st')
      from opticalFlow_body_cases(2) [OF Continue] obtain r where
        r: "\<not> aborted e f" "ys = [progress_item cfg f, Result r]" "frameNumber r = f"
        by blast
      from "1.IH" [OF True Continue]
      have "run_from cfg e (f + 1) (fst (opticalFlow_loop cfg e (f + 1) st'))
              (snd (opticalFlow_loop cfg e (f + 1) st'))" .
      with True r show ?thesis
        by (simp add: opticalFlow_loop.simps [of cfg e f st] Continue rf_step)
    qed
  qed
qed

text \<open>
  A run of \<open>trackObject\<close> either fails on the start frame, yielding nothing, or is a
  run of one of the loops from the frame after the start frame.
\<close>

lemma trackObject_cases:
  obtains (threw) err where "trackObject cfg e = ([], Threw (startFrame cfg) err)"
  | (run) "run_from cfg e (startFrame cfg + 1) (fst (trackObject cfg e)) (snd (trackObject cfg e))"
  by (cases "fetch e (startFrame cfg)")
    (auto simp: trackObject_def opticalFlowTrack_def templateMatchTrack_def
      opticalFlow_loop_run_from templateMatch_loop_run_from)

lemma run_from_results:
  "run_from cfg e f is fin \<Longrightarrow>
     map frameNumber (results_of is) = [f .. f + int (length (results_of is)) - 1] \<and>
     (results_of is \<noteq> [] \<longrightarrow> f + int (length (results_of is)) - 1 \<le> endFrame cfg)"
proof (induction rule: run_from.induct)
  case (rf_step f r rest fin)
  then show ?case
    by (cases "results_of rest = []") (simp_all add: progress_item_def upto_rec1 [of f])
qed (simp_all add: progress_item_def)

lemma run_from_progress:
  "run_from cfg e f is fin \<Longrightarrow>
     map frame (progress_of is) =
       [f - startFrame cfg .. f - startFrame cfg + int (length (progress_of is)) - 1] \<and>
     (progress_of is \<noteq> [] \<longrightarrow> f + int (length (progress_of is)) - 1 \<le> endFrame cfg) \<and>
     (\<forall>p\<in>set (progress_of is). total p = endFrame cfg - startFrame cfg)"
proof (induction rule: run_from.induct)
  case (rf_step f r rest fin)
  then show ?case
    by (cases "progress_of rest = []")
      (simp_all add: progress_item_def upto_rec1 [of "f - startFrame cfg"] algebra_simps)
qed (simp_all add: progress_item_def)

lemma run_from_precedes:
  "run_from cfg e f is fin \<Longrightarrow> i < length is \<Longrightarrow> is ! i = Result r \<Longrightarrow>
     0 < i \<and> is ! (i - 1) = progress_item cfg (frameNumber r)"
proof (induction arbitrary: i rule: run_from.induct)
  case (rf_step f r' rest fin)
  show ?case
  proof (cases "i < 2")
    case True
    then have "i = 0 \<or> i = 1" by arith
    with rf_step.prems rf_step.hyps show ?thesis
      by (auto simp: progress_item_def)
  next
    case False
    then obtain j where j: "i = Suc (Suc j)"
      by (metis not_less_eq not0_implies_Suc numeral_2_eq_2 less_Suc_eq)
    with rf_step.prems have "j < length rest" "rest ! j = Result r" by simp_all
    from rf_step.IH [OF this] j show ?thesis
      by (cases j) simp_all
  qed
qed (auto simp: progress_item_def less_Suc_eq)

lemma run_from_cancel:
  "run_from cfg e f is fin \<Longrightarrow> f \<le> K + 1 \<Longrightarrow> K < endFrame cfg \<Longrightarrow>
     \<forall>g\<in>{f..K}. \<not> aborted e g \<Longrightarrow> aborted e (K + 1) \<Longrightarrow>
     int (length (results_of is)) \<le> K + 1 - f \<and>
     (fin = Cancelled (K + 1) \<or> (\<exists>g\<in>{f..K}. fin = Lost g \<or> (\<exists>err. fin = Threw g err))) \<and>
     (fin = Cancelled (K + 1) \<longrightarrow>
        int (length (results_of is)) = K + 1 - f \<and> int (length (progress_of is)) = K + 1 - f)"
proof (induction rule: run_from.induct)
  case (rf_completed f)
  then show ?case by simp
next
  case (rf_cancelled f)
  then have "f = K + 1"
    by (metis atLeastAtMost_iff not_less zle_add1_eq_le order_le_less)
  then show ?case by simp
next
  case (rf_threw f err)
  then have "f \<le> K" by (metis add1_zle_eq linorder_not_less order_le_less)
  then show ?case by (auto simp: progress_item_def)
next
  case (rf_lost f r fin err)
  then have fK: "f \<le> K" by (metis add1_zle_eq linorder_not_less order_le_less)
  from rf_lost.hyps have fin: "fin = Lost f \<or> fin = Threw f err" by blast
  with fK have "\<exists>g\<in>{f..K}. fin = Lost g \<or> (\<exists>err. fin = Threw g err)"
    by auto
  moreover from fin have "fin \<noteq> Cancelled (K + 1)" by auto
  ultimately show ?case using fK by (simp add: progress_item_def)
next
  case (rf_step f r rest fin)
  then have fK: "f \<le> K" by (metis add1_zle_eq linorder_not_less order_le_less)
  then have "f + 1 \<le> K + 1" "\<forall>g\<in>{f + 1..K}. \<not> aborted e g"
    using rf_step.prems by auto
  from rf_step.IH [OF this(1) rf_step.prems(2) this(2) rf_step.prems(4)] fK
  show ?case
    by (auto simp: progress_item_def)
qed
section \<open>Order and range of the yielded frames\<close>

text \<open>
  C2, as amended. For either algorithm and every configuration: the results carry the
  consecutive frame numbers \<open>startFrame + 1, startFrame + 2, \<dots>\<close>, each within
  \<open>(startFrame, endFrame]\<close>, so the sequence is strictly increasing; the progress records
  carry the offsets \<open>1, 2, \<dots>\<close> of those frames from \<open>startFrame\<close> (not the frame
  numbers), each at most \<open>endFrame - startFrame\<close>, which is also their \<open>total\<close>; and
  every result is immediately preceded by the progress record of its own frame.
\<close>

theorem yielded_frames_sequential:
  "map frameNumber (results_of (fst (trackObject cfg e))) =
     [startFrame cfg + 1 .. startFrame cfg + int (length (results_of (fst (trackObject cfg e))))] \<and>
   sorted_wrt (<) (map frameNumber (results_of (fst (trackObject cfg e)))) \<and>
   (\<forall>r\<in>set (results_of (fst (trackObject cfg e))).
      startFrame cfg < frameNumber r \<and> frameNumber r \<le> endFrame cfg) \<and>
   map frame (progress_of (fst (trackObject cfg e))) =
     [1 .. int (length (progress_of (fst (trackObject cfg e))))] \<and>
   sorted_wrt (<) (map frame (progress_of (fst (trackObject cfg e)))) \<and>
   (\<forall>p\<in>set (progress_of (fst (trackObject cfg e))).
      1 \<le> frame p \<and> frame p \<le> endFrame cfg - startFrame cfg \<and>
      total p = endFrame cfg - startFrame cfg) \<and>
   (\<forall>i<length (fst (trackObject cfg e)). \<forall>r. fst (trackObject cfg e) ! i = Result r \<longrightarrow>
      0 < i \<and>
      fst (trackObject cfg e) ! (i - 1) =
        Progress \<lparr>frame = frameNumber r - startFrame cfg,
                  total = endFrame cfg - startFrame cfg\<rparr>)"
proof (cases rule: trackObject_cases [of cfg e])
  case (threw err)
  then show ?thesis by simp
next
  case run
  let ?is = "fst (trackObject cfg e)"
  let ?s = "startFrame cfg"
  from run_from_results [OF run]
  have res: "map frameNumber (results_of ?is) = [?s + 1 .. ?s + int (length (results_of ?is))]"
    and res_le: "results_of ?is \<noteq> [] \<longrightarrow> ?s + int (length (results_of ?is)) \<le> endFrame cfg"
    by (simp_all add: algebra_simps)
  from run_from_progress [OF run]
  have pro: "map frame (progress_of ?is) = [1 .. int (length (progress_of ?is))]"
    and pro_le: "progress_of ?is \<noteq> [] \<longrightarrow> ?s + int (length (progress_of ?is)) \<le> endFrame cfg"
    and tot: "\<forall>p\<in>set (progress_of ?is). total p = endFrame cfg - ?s"
    by (simp_all add: algebra_simps)
  have sorted_res: "sorted_wrt (<) (map frameNumber (results_of ?is))"
    unfolding res by (rule sorted_wrt_upto)
  have sorted_pro: "sorted_wrt (<) (map frame (progress_of ?is))"
    unfolding pro by (rule sorted_wrt_upto)
  have range_res: "\<forall>r\<in>set (results_of ?is). ?s < frameNumber r \<and> frameNumber r \<le> endFrame cfg"
  proof
    fix r assume r: "r \<in> set (results_of ?is)"
    then have "frameNumber r \<in> set (map frameNumber (results_of ?is))" by simp
    then have "?s + 1 \<le> frameNumber r" "frameNumber r \<le> ?s + int (length (results_of ?is))"
      unfolding res by simp_all
    moreover from r res_le have "?s + int (length (results_of ?is)) \<le> endFrame cfg" by auto
    ultimately show "?s < frameNumber r \<and> frameNumber r \<le> endFrame cfg" by linarith
  qed
  have range_pro: "\<forall>p\<in>set (progress_of ?is).
      1 \<le> frame p \<and> frame p \<le> endFrame cfg - ?s \<and> total p = endFrame cfg - ?s"
  proof
    fix p assume p: "p \<in> set (progress_of ?is)"
    then have "frame p \<in> set (map frame (progress_of ?is))" by simp
    then have "1 \<le> frame p" "frame p \<le> int (length (progress_of ?is))"
      unfolding pro by simp_all
    moreover from p pro_le have "?s + int (length (progress_of ?is)) \<le> endFrame cfg" by auto
    ultimately show "1 \<le> frame p \<and> frame p \<le> endFrame cfg - ?s \<and> total p = endFrame cfg - ?s"
      using tot p by auto
  qed
  have prec: "\<forall>i<length ?is. \<forall>r. ?is ! i = Result r \<longrightarrow>
      0 < i \<and> ?is ! (i - 1) =
        Progress \<lparr>frame = frameNumber r - ?s, total = endFrame cfg - ?s\<rparr>"
    using run_from_precedes [OF run] by (simp add: progress_item_def)
  from res sorted_res range_res pro sorted_pro range_pro prec show ?thesis
    by (intro conjI)
qed

theorem yielded_frames_sequential_witness:
  "map frameNumber (results_of (fst (trackObject (ex_config Template 20) (ex_env 100 100)))) =
     [11, 12, 13, 14, 15] \<and>
   list_all (\<lambda>r. 10 < frameNumber r \<and> frameNumber r \<le> 15)
     (results_of (fst (trackObject (ex_config Template 20) (ex_env 100 100)))) \<and>
   map frame (progress_of (fst (trackObject (ex_config Template 20) (ex_env 100 100)))) =
     [1, 2, 3, 4, 5] \<and>
   list_all (\<lambda>p. 1 \<le> frame p \<and> frame p \<le> 5 \<and> total p = 5)
     (progress_of (fst (trackObject (ex_config Template 20) (ex_env 100 100)))) \<and>
   fst (trackObject (ex_config Template 20) (ex_env 100 100)) ! 3 =
     Result \<lparr>frameNumber = 12, x = 120, y = 70, confidence = 1\<rparr> \<and>
   fst (trackObject (ex_config Template 20) (ex_env 100 100)) ! (3 - 1) =
     Progress \<lparr>frame = 12 - 10, total = 5\<rparr>"
proof -
  have len: "length (results_of (fst (trackObject (ex_config Template 20) (ex_env 100 100)))) = 5"
    "length (progress_of (fst (trackObject (ex_config Template 20) (ex_env 100 100)))) = 5"
    "3 < length (fst (trackObject (ex_config Template 20) (ex_env 100 100)))"
    by code_simp+
  have r: "fst (trackObject (ex_config Template 20) (ex_env 100 100)) ! 3 =
     Result \<lparr>frameNumber = 12, x = 120, y = 70, confidence = 1\<rparr>"
    by code_simp
  have cfg: "startFrame (ex_config Template 20) = 10" "endFrame (ex_config Template 20) = 15"
    by (simp_all add: ex_config_def)
  have upto: "[11 .. 15] = [11, 12, 13, 14, 15 :: int]" "[1 .. 5] = [1, 2, 3, 4, 5 :: int]"
    by code_simp+
  note all = yielded_frames_sequential [of "ex_config Template 20" "ex_env 100 100"]
  from all
  have a: "map frameNumber (results_of (fst (trackObject (ex_config Template 20) (ex_env 100 100)))) =
     [11, 12, 13, 14, 15]"
    and b: "\<forall>r\<in>set (results_of (fst (trackObject (ex_config Template 20) (ex_env 100 100)))).
      10 < frameNumber r \<and> frameNumber r \<le> 15"
    and c: "map frame (progress_of (fst (trackObject (ex_config Template 20) (ex_env 100 100)))) =
     [1, 2, 3, 4, 5]"
    and d: "\<forall>p\<in>set (progress_of (fst (trackObject (ex_config Template 20) (ex_env 100 100)))).
      1 \<le> frame p \<and> frame p \<le> 5 \<and> total p = 5"
    by (simp_all add: len cfg upto)
  from all
  have "\<forall>i<length (fst (trackObject (ex_config Template 20) (ex_env 100 100))). \<forall>r.
      fst (trackObject (ex_config Template 20) (ex_env 100 100)) ! i = Result r \<longrightarrow>
      0 < i \<and>
      fst (trackObject (ex_config Template 20) (ex_env 100 100)) ! (i - 1) =
        Progress \<lparr>frame = frameNumber r - 10, total = 15 - 10\<rparr>"
    unfolding cfg by blast
  from this [rule_format, OF len(3) r]
  have e: "fst (trackObject (ex_config Template 20) (ex_env 100 100)) ! (3 - 1) =
     Progress \<lparr>frame = 12 - 10, total = 5\<rparr>"
    by simp
  from a b c d e r show ?thesis
    by (simp add: list_all_iff)
qed

text \<open>
  C2 as stated fails for the progress records: in the example run over frames 10 to 15
  the first progress record carries \<open>frame = 1\<close>, which is not in \<open>(10, 15]\<close>.
\<close>

theorem progress_frame_not_in_range_counterexample:
  "\<not> (startFrame (ex_config Template 20)
        < frame (hd (progress_of (fst (trackObject (ex_config Template 20) (ex_env 100 100))))) \<and>
      frame (hd (progress_of (fst (trackObject (ex_config Template 20) (ex_env 100 100)))))
        \<le> endFrame (ex_config Template 20))"
  by code_simp
section \<open>Template matching: the degenerate search window\<close>

text \<open>
  C4. In the template-match tracker, at an iteration that is reached (the frame is at most
  \<open>endFrame\<close>), not cancelled and whose frame is fetched, if the clamped search window
  cannot contain the template (\<open>searchW < templateW\<close> or \<open>searchH < templateH\<close>), the
  rest of the run is the progress record of that frame and one result with confidence 0
  at the current match center, and the generator returns (no exception). In particular,
  when this happens on the first tracked frame, the whole run yields exactly one result,
  with confidence 0, at the center of the clamped ROI.
\<close>

theorem template_cannot_fit:
  "(frameNum \<le> endFrame cfg \<and> \<not> aborted e frameNum \<and> fetch e frameNum = None \<and>
    (rect_width (searchRect cfg c) < templateW cfg \<or>
     rect_height (searchRect cfg c) < templateH cfg) \<longrightarrow>
      templateMatch_loop cfg e frameNum c =
        ([progress_item cfg frameNum,
          Result \<lparr>frameNumber = frameNum, x = fst c, y = snd c, confidence = 0\<rparr>],
         Lost frameNum)) \<and>
   (startFrame cfg < endFrame cfg \<and> fetch e (startFrame cfg) = None \<and>
    \<not> aborted e (startFrame cfg + 1) \<and> fetch e (startFrame cfg + 1) = None \<and>
    (rect_width (searchRect cfg (initialCenter cfg)) < templateW cfg \<or>
     rect_height (searchRect cfg (initialCenter cfg)) < templateH cfg) \<longrightarrow>
      results_of (fst (templateMatchTrack cfg e)) =
        [\<lparr>frameNumber = startFrame cfg + 1, x = fst (initialCenter cfg),
          y = snd (initialCenter cfg), confidence = 0\<rparr>] \<and>
      snd (templateMatchTrack cfg e) = Lost (startFrame cfg + 1))"
proof -
  have loop: "templateMatch_loop cfg e f c' =
        ([progress_item cfg f, Result \<lparr>frameNumber = f, x = fst c', y = snd c', confidence = 0\<rparr>],
         Lost f)"
    if "f \<le> endFrame cfg" "\<not> aborted e f" "fetch e f = None"
      "rect_width (searchRect cfg c') < templateW cfg \<or>
       rect_height (searchRect cfg c') < templateH cfg"
    for f c'
  proof -
    from that have "templateMatch_body cfg e f c' =
        Stop [progress_item cfg f,
              Result \<lparr>frameNumber = f, x = fst c', y = snd c', confidence = 0\<rparr>] (Lost f)"
      by (simp add: templateMatch_body_def Let_def)
    with that(1) show ?thesis
      by (simp add: templateMatch_loop.simps [of cfg e f c'])
  qed
  show ?thesis
  proof (intro conjI impI)
    assume "frameNum \<le> endFrame cfg \<and> \<not> aborted e frameNum \<and> fetch e frameNum = None \<and>
      (rect_width (searchRect cfg c) < templateW cfg \<or>
       rect_height (searchRect cfg c) < templateH cfg)"
    then show "templateMatch_loop cfg e frameNum c =
        ([progress_item cfg frameNum,
          Result \<lparr>frameNumber = frameNum, x = fst c, y = snd c, confidence = 0\<rparr>],
         Lost frameNum)"
      using loop [of frameNum c] by blast
  next
    assume a: "startFrame cfg < endFrame cfg \<and> fetch e (startFrame cfg) = None \<and>
      \<not> aborted e (startFrame cfg + 1) \<and> fetch e (startFrame cfg + 1) = None \<and>
      (rect_width (searchRect cfg (initialCenter cfg)) < templateW cfg \<or>
       rect_height (searchRect cfg (initialCenter cfg)) < templateH cfg)"
    then have "startFrame cfg + 1 \<le> endFrame cfg" by simp
    from loop [OF this, of "initialCenter cfg"] a
    have run: "templateMatchTrack cfg e =
        ([progress_item cfg (startFrame cfg + 1),
          Result \<lparr>frameNumber = startFrame cfg + 1, x = fst (initialCenter cfg),
                  y = snd (initialCenter cfg), confidence = 0\<rparr>],
         Lost (startFrame cfg + 1))"
      by (simp add: templateMatchTrack_def)
    show "results_of (fst (templateMatchTrack cfg e)) =
        [\<lparr>frameNumber = startFrame cfg + 1, x = fst (initialCenter cfg),
          y = snd (initialCenter cfg), confidence = 0\<rparr>]"
      unfolding run by (simp add: progress_item_def)
    show "snd (templateMatchTrack cfg e) = Lost (startFrame cfg + 1)"
      unfolding run by simp
  qed
qed

text \<open>
  The example with a search margin of \<open>-5\<close>: the 30 pixel window cannot hold the 40
  pixel template on frame 11.
\<close>

theorem template_cannot_fit_witness:
  "startFrame (ex_config Template (- 5)) < endFrame (ex_config Template (- 5)) \<and>
   fetch (ex_env 100 100) (startFrame (ex_config Template (- 5))) = None \<and>
   \<not> aborted (ex_env 100 100) (startFrame (ex_config Template (- 5)) + 1) \<and>
   fetch (ex_env 100 100) (startFrame (ex_config Template (- 5)) + 1) = None \<and>
   rect_width (searchRect (ex_config Template (- 5)) (initialCenter (ex_config Template (- 5))))
     < templateW (ex_config Template (- 5)) \<and>
   results_of (fst (templateMatchTrack (ex_config Template (- 5)) (ex_env 100 100))) =
     [\<lparr>frameNumber = 11, x = 120, y = 70, confidence = 0\<rparr>] \<and>
   snd (templateMatchTrack (ex_config Template (- 5)) (ex_env 100 100)) = Lost 11"
proof -
  have h: "startFrame (ex_config Template (- 5)) < endFrame (ex_config Template (- 5))"
    "fetch (ex_env 100 100) (startFrame (ex_config Template (- 5))) = None"
    "\<not> aborted (ex_env 100 100) (startFrame (ex_config Template (- 5)) + 1)"
    "fetch (ex_env 100 100) (startFrame (ex_config Template (- 5)) + 1) = None"
    by (simp_all add: ex_config_def ex_env_def)
  have w: "rect_width (searchRect (ex_config Template (- 5)) (initialCenter (ex_config Template (- 5))))
     < templateW (ex_config Template (- 5))"
    by code_simp
  have v: "startFrame (ex_config Template (- 5)) + 1 = 11"
    "fst (initialCenter (ex_config Template (- 5))) = 120"
    "snd (initialCenter (ex_config Template (- 5))) = 70"
    by code_simp+
  from template_cannot_fit [of _ "ex_config Template (- 5)" "ex_env 100 100"] h w
  have "results_of (fst (templateMatchTrack (ex_config Template (- 5)) (ex_env 100 100))) =
        [\<lparr>frameNumber = startFrame (ex_config Template (- 5)) + 1,
          x = fst (initialCenter (ex_config Template (- 5))),
          y = snd (initialCenter (ex_config Template (- 5))), confidence = 0\<rparr>] \<and>
      snd (templateMatchTrack (ex_config Template (- 5)) (ex_env 100 100)) =
        Lost (startFrame (ex_config Template (- 5)) + 1)"
    by blast
  with h w show ?thesis unfolding v by blast
qed
section \<open>Template matching: the match center stays inside the video\<close>

lemma half_bounds:
  fixes a w v :: real
  assumes "0 \<le> a" "a + w \<le> v"
  shows "w / 2 \<le> a + w / 2" "a + w / 2 \<le> v - w / 2"
  using assms by linarith+

lemma roiRect_bounds:
  "0 \<le> rect_x (roiRect cfg)"
  "0 \<le> rect_y (roiRect cfg)"
  "rect_x (roiRect cfg) + rect_width (roiRect cfg) \<le> videoWidth (cfg_video cfg)"
  "rect_y (roiRect cfg) + rect_height (roiRect cfg) \<le> videoHeight (cfg_video cfg)"
  by (simp_all add: roiRect_def Let_def clamp_def)

lemma initialCenter_inside: "inside_video cfg (initialCenter cfg)"
proof -
  from roiRect_bounds [of cfg]
  have "0 \<le> real_of_int (rect_x (roiRect cfg))"
    "real_of_int (rect_x (roiRect cfg)) + real_of_int (templateW cfg)
       \<le> real_of_int (videoWidth (cfg_video cfg))"
    "0 \<le> real_of_int (rect_y (roiRect cfg))"
    "real_of_int (rect_y (roiRect cfg)) + real_of_int (templateH cfg)
       \<le> real_of_int (videoHeight (cfg_video cfg))"
    unfolding templateW_def templateH_def
    by (simp_all only: of_int_0_le_iff of_int_add [symmetric] of_int_le_iff)
  then show ?thesis
    unfolding initialCenter_def inside_video_def fst_conv snd_conv
      templateW_def [symmetric] templateH_def [symmetric]
    by (intro conjI half_bounds)
qed

lemma searchRect_bounds:
  "0 \<le> rect_x (searchRect cfg c)"
  "0 \<le> rect_y (searchRect cfg c)"
  "rect_x (searchRect cfg c) + rect_width (searchRect cfg c) \<le> videoWidth (cfg_video cfg)"
  "rect_y (searchRect cfg c) + rect_height (searchRect cfg c) \<le> videoHeight (cfg_video cfg)"
  by (simp_all add: searchRect_def Let_def clamp_def)

lemma templateMatch_body_inside:
  assumes contract: "\<And>f sr. template_fits cfg sr \<Longrightarrow>
      0 \<le> maxLoc_x (matchTemplate e f sr (templateW cfg) (templateH cfg)) \<and>
      maxLoc_x (matchTemplate e f sr (templateW cfg) (templateH cfg))
        \<le> rect_width sr - templateW cfg \<and>
      0 \<le> maxLoc_y (matchTemplate e f sr (templateW cfg) (templateH cfg)) \<and>
      maxLoc_y (matchTemplate e f sr (templateW cfg) (templateH cfg))
        \<le> rect_height sr - templateH cfg"
    and c: "inside_video cfg c"
  shows "templateMatch_body cfg e f c = Stop ys fin \<Longrightarrow>
           \<forall>r\<in>set (results_of ys). inside_video cfg (x r, y r)"
    and "templateMatch_body cfg e f c = Continue ys c' \<Longrightarrow>
           inside_video cfg c' \<and> (\<forall>r\<in>set (results_of ys). inside_video cfg (x r, y r))"
proof -
  show "templateMatch_body cfg e f c = Stop ys fin \<Longrightarrow>
           \<forall>r\<in>set (results_of ys). inside_video cfg (x r, y r)"
    using c
    by (auto simp: templateMatch_body_def Let_def progress_item_def inside_video_def
        split: if_splits option.splits)
next
  assume body: "templateMatch_body cfg e f c = Continue ys c'"
  let ?sr = "searchRect cfg c"
  let ?m = "matchTemplate e f ?sr (templateW cfg) (templateH cfg)"
  from body have fits: "template_fits cfg ?sr"
    by (auto simp: templateMatch_body_def Let_def template_fits_def
        split: if_splits option.splits)
  from body have c': "c' = (real_of_int (rect_x ?sr + maxLoc_x ?m) + real_of_int (templateW cfg) / 2,
                     real_of_int (rect_y ?sr + maxLoc_y ?m) + real_of_int (templateH cfg) / 2)"
    and ys: "results_of ys = [\<lparr>frameNumber = f, x = fst c', y = snd c', confidence = maxVal ?m\<rparr>]"
    by (auto simp: templateMatch_body_def Let_def progress_item_def
        split: if_splits option.splits)
  from contract [OF fits, of f] searchRect_bounds [of cfg c]
  have "0 \<le> rect_x ?sr + maxLoc_x ?m"
    "rect_x ?sr + maxLoc_x ?m + templateW cfg \<le> videoWidth (cfg_video cfg)"
    "0 \<le> rect_y ?sr + maxLoc_y ?m"
    "rect_y ?sr + maxLoc_y ?m + templateH cfg \<le> videoHeight (cfg_video cfg)"
    by linarith+
  then have "0 \<le> real_of_int (rect_x ?sr + maxLoc_x ?m)"
    "real_of_int (rect_x ?sr + maxLoc_x ?m) + real_of_int (templateW cfg)
       \<le> real_of_int (videoWidth (cfg_video cfg))"
    "0 \<le> real_of_int (rect_y ?sr + maxLoc_y ?m)"
    "real_of_int (rect_y ?sr + maxLoc_y ?m) + real_of_int (templateH cfg)
       \<le> real_of_int (videoHeight (cfg_video cfg))"
    by (simp_all only: of_int_0_le_iff of_int_add [symmetric] of_int_le_iff)
  then have "inside_video cfg c'"
    unfolding c' inside_video_def fst_conv snd_conv
    by (intro conjI half_bounds)
  with ys show "inside_video cfg c' \<and> (\<forall>r\<in>set (results_of ys). inside_video cfg (x r, y r))"
    by simp
qed

lemma templateMatch_loop_inside:
  assumes contract: "\<And>f sr. template_fits cfg sr \<Longrightarrow>
      0 \<le> maxLoc_x (matchTemplate e f sr (templateW cfg) (templateH cfg)) \<and>
      maxLoc_x (matchTemplate e f sr (templateW cfg) (templateH cfg))
        \<le> rect_width sr - templateW cfg \<and>
      0 \<le> maxLoc_y (matchTemplate e f sr (templateW cfg) (templateH cfg)) \<and>
      maxLoc_y (matchTemplate e f sr (templateW cfg) (templateH cfg))
        \<le> rect_height sr - templateH cfg"
  shows "inside_video cfg c \<Longrightarrow>
     \<forall>r\<in>set (results_of (fst (templateMatch_loop cfg e f c))). inside_video cfg (x r, y r)"
  using contract
proof (induction cfg e f c rule: templateMatch_loop.induct)
  case (1 cfg e f c)
  note contract = "1.prems"(2)
  show ?case
  proof (cases "f \<le> endFrame cfg")
    case False
    then show ?thesis
      by (simp add: templateMatch_loop.simps [of cfg e f c])
  next
    case True
    show ?thesis
    proof (cases "templateMatch_body cfg e f c")
      case (Stop ys fin)
      from templateMatch_body_inside(1) [OF contract "1.prems"(1) Stop] True show ?thesis
        by (simp add: templateMatch_loop.simps [of cfg e f c] Stop)
    next
      case (Continue ys c')
      from templateMatch_body_inside(2) [OF contract "1.prems"(1) Continue]
      have c': "inside_video cfg c'"
        and ys: "\<forall>r\<in>set (results_of ys). inside_video cfg (x r, y r)" by simp_all
      from "1.IH" [OF True Continue c' contract]
      have "\<forall>r\<in>set (results_of (fst (templateMatch_loop cfg e (f + 1) c'))).
              inside_video cfg (x r, y r)" .
      with ys True show ?thesis
        by (auto simp: templateMatch_loop.simps [of cfg e f c] Continue results_of_append)
    qed
  qed
qed

text \<open>
  C9. Let \<open>cv.matchTemplate\<close> and \<open>cv.minMaxLoc\<close> do what OpenCV documents: for a search
  region that can hold the template, the location of the maximum lies in the result
  matrix, whose size is the region's size minus the template's size plus one. Then the
  initial match center and every result yielded by the template-match tracker have
  \<open>x\<close> in \<open>[templateW / 2, videoWidth - templateW / 2]\<close> and \<open>y\<close> in
  \<open>[templateH / 2, videoHeight - templateH / 2]\<close>.
\<close>

theorem template_results_inside_video:
  assumes "\<forall>f sr. template_fits cfg sr \<longrightarrow>
      0 \<le> maxLoc_x (matchTemplate e f sr (templateW cfg) (templateH cfg)) \<and>
      maxLoc_x (matchTemplate e f sr (templateW cfg) (templateH cfg))
        \<le> rect_width sr - templateW cfg \<and>
      0 \<le> maxLoc_y (matchTemplate e f sr (templateW cfg) (templateH cfg)) \<and>
      maxLoc_y (matchTemplate e f sr (templateW cfg) (templateH cfg))
        \<le> rect_height sr - templateH cfg"
  shows "real_of_int (templateW cfg) / 2 \<le> fst (initialCenter cfg) \<and>
     fst (initialCenter cfg)
       \<le> real_of_int (videoWidth (cfg_video cfg)) - real_of_int (templateW cfg) / 2 \<and>
     real_of_int (templateH cfg) / 2 \<le> snd (initialCenter cfg) \<and>
     snd (initialCenter cfg)
       \<le> real_of_int (videoHeight (cfg_video cfg)) - real_of_int (templateH cfg) / 2 \<and>
     (\<forall>r\<in>set (results_of (fst (templateMatchTrack cfg e))).
        real_of_int (templateW cfg) / 2 \<le> x r \<and>
        x r \<le> real_of_int (videoWidth (cfg_video cfg)) - real_of_int (templateW cfg) / 2 \<and>
        real_of_int (templateH cfg) / 2 \<le> y r \<and>
        y r \<le> real_of_int (videoHeight (cfg_video cfg)) - real_of_int (templateH cfg) / 2)"
proof -
  from assms have contract: "\<And>f sr. template_fits cfg sr \<Longrightarrow>
      0 \<le> maxLoc_x (matchTemplate e f sr (templateW cfg) (templateH cfg)) \<and>
      maxLoc_x (matchTemplate e f sr (templateW cfg) (templateH cfg))
        \<le> rect_width sr - templateW cfg \<and>
      0 \<le> maxLoc_y (matchTemplate e f sr (templateW cfg) (templateH cfg)) \<and>
      maxLoc_y (matchTemplate e f sr (templateW cfg) (templateH cfg))
        \<le> rect_height sr - templateH cfg"
    by blast
  have "\<forall>r\<in>set (results_of (fst (templateMatchTrack cfg e))). inside_video cfg (x r, y r)"
  proof (cases "fetch e (startFrame cfg)")
    case None
    with templateMatch_loop_inside [OF contract initialCenter_inside] show ?thesis
      by (simp add: templateMatchTrack_def)
  next
    case (Some err)
    then show ?thesis by (simp add: templateMatchTrack_def)
  qed
  with initialCenter_inside [of cfg] show ?thesis
    by (simp add: inside_video_def)
qed

theorem template_results_inside_video_witness:
  "length (results_of (fst (templateMatchTrack (ex_config Template 20) (ex_env 100 100)))) = 5 \<and>
   list_all (\<lambda>r. 20 \<le> x r \<and> x r \<le> 620 \<and> 20 \<le> y r \<and> y r \<le> 460)
     (results_of (fst (templateMatchTrack (ex_config Template 20) (ex_env 100 100))))"
proof -
  have h: "\<forall>f sr. template_fits (ex_config Template 20) sr \<longrightarrow>
      0 \<le> maxLoc_x (matchTemplate (ex_env 100 100) f sr (templateW (ex_config Template 20))
             (templateH (ex_config Template 20))) \<and>
      maxLoc_x (matchTemplate (ex_env 100 100) f sr (templateW (ex_config Template 20))
             (templateH (ex_config Template 20)))
        \<le> rect_width sr - templateW (ex_config Template 20) \<and>
      0 \<le> maxLoc_y (matchTemplate (ex_env 100 100) f sr (templateW (ex_config Template 20))
             (templateH (ex_config Template 20))) \<and>
      maxLoc_y (matchTemplate (ex_env 100 100) f sr (templateW (ex_config Template 20))
             (templateH (ex_config Template 20)))
        \<le> rect_height sr - templateH (ex_config Template 20)"
    by (simp add: template_fits_def ex_env_def) linarith
  have v: "templateW (ex_config Template 20) = 40" "templateH (ex_config Template 20) = 40"
    "videoWidth (cfg_video (ex_config Template 20)) = 640"
    "videoHeight (cfg_video (ex_config Template 20)) = 480"
    by code_simp+
  have len: "length (results_of (fst (templateMatchTrack (ex_config Template 20) (ex_env 100 100)))) = 5"
    by code_simp
  from template_results_inside_video [OF h]
  have "\<forall>r\<in>set (results_of (fst (templateMatchTrack (ex_config Template 20) (ex_env 100 100)))).
      20 \<le> x r \<and> x r \<le> 620 \<and> 20 \<le> y r \<and> y r \<le> 460"
    unfolding v by simp
  with len show ?thesis by (simp add: list_all_iff)
qed
section \<open>Optical flow: confidence and the lost path\<close>

text \<open>
  Every result of the optical-flow tracker has confidence 0 or 1, and every result but
  the last has confidence 1.
\<close>

lemma opticalFlow_loop_confidence:
  "(\<forall>r\<in>set (results_of (fst (opticalFlow_loop cfg e f st))). confidence r = 0 \<or> confidence r = 1) \<and>
   (\<forall>r\<in>set (butlast (results_of (fst (opticalFlow_loop cfg e f st)))). confidence r = 1)"
proof (induction cfg e f st rule: opticalFlow_loop.induct)
  case (1 cfg e f st)
  show ?case
  proof (cases "f \<le> endFrame cfg")
    case False
    then show ?thesis
      by (simp add: opticalFlow_loop.simps [of cfg e f st])
  next
    case True
    show ?thesis
    proof (cases "opticalFlow_body cfg e f st")
      case (Stop ys fin)
      from opticalFlow_body_cases(1) [OF Stop] True show ?thesis
        by (auto simp: opticalFlow_loop.simps [of cfg e f st] Stop progress_item_def)
    next
      case (Continue ys st')
      from Continue obtain r where
        ys: "results_of ys = [r]" and conf: "confidence r = 1"
        by (auto simp: opticalFlow_body_def Let_def progress_item_def
            split: if_splits option.splits prod.splits)
      from "1.IH" [OF True Continue] ys conf True show ?thesis
        by (auto simp: opticalFlow_loop.simps [of cfg e f st] Continue results_of_append
            dest: in_set_butlastD)
    qed
  qed
qed

text \<open>
  An iteration that is reached, not cancelled, whose frame is fetched and whose status
  byte is 1 yields a result with confidence 1 at the new point, and the rest of the run
  is the run from the next frame with the current frame and the new point as previous
  state.
\<close>

lemma opticalFlow_loop_tracked:
  assumes "f \<le> endFrame cfg" "\<not> aborted e f" "fetch e f = None"
    and "calcOpticalFlowPyrLK e (fst st) f (snd st) = (1, newX, newY)"
  shows "opticalFlow_loop cfg e f st =
     apfst ((@) [progress_item cfg f,
                 Result \<lparr>frameNumber = f, x = newX, y = newY, confidence = 1\<rparr>])
       (opticalFlow_loop cfg e (f + 1) (f, newX, newY))"
  using assms
  by (simp add: opticalFlow_loop.simps [of cfg e f st] opticalFlow_body_def)

text \<open>
  When the status byte is not 1, the iteration yields one result with confidence 0 at the
  new point, and the \<open>finally\<close> block then throws: the run ends by a \<open>BindingError\<close>.
\<close>

lemma opticalFlow_loop_lost:
  assumes "f \<le> endFrame cfg" "\<not> aborted e f" "fetch e f = None"
    and "calcOpticalFlowPyrLK e (fst st) f (snd st) = (status, newX, newY)" "status \<noteq> 1"
  shows "opticalFlow_loop cfg e f st =
     ([progress_item cfg f, Result \<lparr>frameNumber = f, x = newX, y = newY, confidence = 0\<rparr>],
      Threw f bindingError)"
  using assms
  by (simp add: opticalFlow_loop.simps [of cfg e f st] opticalFlow_body_def
      opticalFlow_finally_simps)

text \<open>
  C5 on the example in which the flow is lost at frame 13. The tracker yields the results
  of the frames 11 and 12 with confidence 1, each from the point of the frame before, and
  one result with confidence 0 for frame 13. It does not then terminate the run as the
  specification has it, with tracking lost not an error: the \<open>finally\<close> block deletes
  \<open>prevGray\<close> and \<open>prevPts\<close>, which the iteration has deleted already, and the generator
  throws. In the session, the two results are committed and the user is told that
  tracking failed. The template tracker, on its lost path, returns.
\<close>

theorem optical_flow_lost_throws:
  "opticalFlowTrack (ex_config OpticalFlow 20) (ex_env 100 13) =
     ([Progress \<lparr>frame = 1, total = 5\<rparr>,
       Result \<lparr>frameNumber = 11, x = 121, y = 70, confidence = 1\<rparr>,
       Progress \<lparr>frame = 2, total = 5\<rparr>,
       Result \<lparr>frameNumber = 12, x = 122, y = 70, confidence = 1\<rparr>,
       Progress \<lparr>frame = 3, total = 5\<rparr>,
       Result \<lparr>frameNumber = 13, x = 123, y = 70, confidence = 0\<rparr>],
      Threw 13 \<lparr>err_name = ''BindingError'', err_message = ''Mat instance already deleted''\<rparr>) \<and>
   trackObject_return (ex_config OpticalFlow 20)
       \<lparr>frameNumber = 13, x = 123, y = 70, confidence = 0\<rparr> =
     Some \<lparr>err_name = ''BindingError'', err_message = ''Mat instance already deleted''\<rparr> \<and>
   fst (snd (autoTrackSubmit (ex_world 100 13) (Some (ex_data ''10'' ''15'')) ex_session)) =
     [OverwriteConfirm 1, FailedAlert ''Mat instance already deleted'', TrackedAlert 2] \<and>
   snd (templateMatchTrack (ex_config Template (- 5)) (ex_env 100 100)) = Lost 11"
  by code_simp

section \<open>Cancellation\<close>

lemma opticalFlow_loop_cancelled:
  assumes "K < endFrame cfg" and "aborted e (K + 1)"
    and "\<forall>g\<in>{f..K}. \<not> aborted e g \<and> fetch e g = None \<and>
           (\<forall>f' p. fst (calcOpticalFlowPyrLK e f' g p) = 1)"
    and "f \<le> K + 1"
  shows "snd (opticalFlow_loop cfg e f st) = Cancelled (K + 1)"
  using assms
proof (induction cfg e f st rule: opticalFlow_loop.induct)
  case (1 cfg e f st)
  from "1.prems" have le: "f \<le> endFrame cfg" by simp
  show ?case
  proof (cases "f = K + 1")
    case True
    with "1.prems"(2) have "opticalFlow_body cfg e f st = Stop [] (Cancelled f)"
      by (simp add: opticalFlow_body_def opticalFlow_finally_simps)
    with le have "snd (opticalFlow_loop cfg e f st) = Cancelled f"
      by (simp add: opticalFlow_loop.simps [of cfg e f st])
    with True show ?thesis by simp
  next
    case False
    with "1.prems"(4) have fK: "f \<in> {f..K}" by simp
    with "1.prems"(3) have here: "\<not> aborted e f" "fetch e f = None"
      "fst (calcOpticalFlowPyrLK e (fst st) f (snd st)) = 1"
      by blast+
    obtain status newX newY where
      flow: "calcOpticalFlowPyrLK e (fst st) f (snd st) = (status, newX, newY)"
      by (cases "calcOpticalFlowPyrLK e (fst st) f (snd st)")
    with here(3) have status: "status = 1" by simp
    from here flow status
    have body: "opticalFlow_body cfg e f st =
        Continue [progress_item cfg f,
                  Result \<lparr>frameNumber = f, x = newX, y = newY, confidence = 1\<rparr>]
                 (f, newX, newY)"
      by (simp add: opticalFlow_body_def)
    from "1.prems"(3) have rest: "\<forall>g\<in>{f + 1..K}. \<not> aborted e g \<and> fetch e g = None \<and>
           (\<forall>f' p. fst (calcOpticalFlowPyrLK e f' g p) = 1)"
      by simp
    from fK have next_le: "f + 1 \<le> K + 1" by simp
    from "1.IH" [OF le body "1.prems"(1) "1.prems"(2) rest next_le] le body
    show ?thesis
      by (simp add: opticalFlow_loop.simps [of cfg e f st])
  qed
qed

text \<open>
  With a non-negative margin, the search window around a center on the grid holds the
  template.
\<close>

lemma searchRect_fits:
  assumes grid: "on_grid cfg c" and margin: "0 \<le> searchMargin cfg"
  shows "template_fits cfg (searchRect cfg c)"
proof -
  from grid obtain a b where
    c: "c = (real_of_int a + real_of_int (templateW cfg) / 2,
             real_of_int b + real_of_int (templateH cfg) / 2)"
    and a: "0 \<le> a" "a + templateW cfg \<le> videoWidth (cfg_video cfg)"
    and b: "0 \<le> b" "b + templateH cfg \<le> videoHeight (cfg_video cfg)"
    unfolding on_grid_def by blast
  have rx: "Math_round (fst c - real_of_int (templateW cfg) / 2 - searchMargin cfg) \<le> a"
    unfolding c fst_conv Math_round_def using margin by (simp add: floor_le_iff)
  have ry: "Math_round (snd c - real_of_int (templateH cfg) / 2 - searchMargin cfg) \<le> b"
    unfolding c snd_conv Math_round_def using margin by (simp add: floor_le_iff)
  have rw: "templateW cfg \<le> Math_round (real_of_int (templateW cfg) + 2 * searchMargin cfg)"
    unfolding Math_round_def using margin by (simp add: le_floor_iff)
  have rh: "templateH cfg \<le> Math_round (real_of_int (templateH cfg) + 2 * searchMargin cfg)"
    unfolding Math_round_def using margin by (simp add: le_floor_iff)
  from rx a have x: "rect_x (searchRect cfg c) \<le> a"
    by (simp add: searchRect_def Let_def clamp_def)
  from ry b have y: "rect_y (searchRect cfg c) \<le> b"
    by (simp add: searchRect_def Let_def clamp_def)
  have w: "rect_width (searchRect cfg c) =
      min (Math_round (real_of_int (templateW cfg) + 2 * searchMargin cfg))
          (videoWidth (cfg_video cfg) - rect_x (searchRect cfg c))"
    by (simp add: searchRect_def Let_def)
  have h: "rect_height (searchRect cfg c) =
      min (Math_round (real_of_int (templateH cfg) + 2 * searchMargin cfg))
          (videoHeight (cfg_video cfg) - rect_y (searchRect cfg c))"
    by (simp add: searchRect_def Let_def)
  from x a rw have "templateW cfg \<le> rect_width (searchRect cfg c)"
    unfolding w by simp
  moreover from y b rh have "templateH cfg \<le> rect_height (searchRect cfg c)"
    unfolding h by simp
  ultimately show ?thesis
    by (simp add: template_fits_def not_less)
qed

lemma initialCenter_on_grid: "on_grid cfg (initialCenter cfg)"
  unfolding on_grid_def initialCenter_def templateW_def templateH_def
  using roiRect_bounds [of cfg] by blast

lemma templateMatch_body_on_grid:
  assumes contract: "\<And>f sr. template_fits cfg sr \<Longrightarrow>
      0 \<le> maxLoc_x (matchTemplate e f sr (templateW cfg) (templateH cfg)) \<and>
      maxLoc_x (matchTemplate e f sr (templateW cfg) (templateH cfg))
        \<le> rect_width sr - templateW cfg \<and>
      0 \<le> maxLoc_y (matchTemplate e f sr (templateW cfg) (templateH cfg)) \<and>
      maxLoc_y (matchTemplate e f sr (templateW cfg) (templateH cfg))
        \<le> rect_height sr - templateH cfg"
    and here: "\<not> aborted e f" "fetch e f = None"
    and fits: "template_fits cfg (searchRect cfg c)"
  shows "\<exists>ys c'. templateMatch_body cfg e f c = Continue ys c' \<and> on_grid cfg c'"
proof -
  let ?sr = "searchRect cfg c"
  let ?m = "matchTemplate e f ?sr (templateW cfg) (templateH cfg)"
  let ?c' = "(real_of_int (rect_x ?sr + maxLoc_x ?m) + real_of_int (templateW cfg) / 2,
              real_of_int (rect_y ?sr + maxLoc_y ?m) + real_of_int (templateH cfg) / 2)"
  from here fits
  have body: "templateMatch_body cfg e f c =
      Continue [progress_item cfg f,
                Result \<lparr>frameNumber = f, x = fst ?c', y = snd ?c', confidence = maxVal ?m\<rparr>] ?c'"
    by (simp add: templateMatch_body_def template_fits_def Let_def)
  from contract [OF fits, of f] searchRect_bounds [of cfg c]
  have "0 \<le> rect_x ?sr + maxLoc_x ?m"
    "rect_x ?sr + maxLoc_x ?m + templateW cfg \<le> videoWidth (cfg_video cfg)"
    "0 \<le> rect_y ?sr + maxLoc_y ?m"
    "rect_y ?sr + maxLoc_y ?m + templateH cfg \<le> videoHeight (cfg_video cfg)"
    by linarith+
  then have "on_grid cfg ?c'"
    unfolding on_grid_def by blast
  with body show ?thesis by blast
qed

lemma templateMatch_loop_cancelled:
  assumes contract: "\<And>f sr. template_fits cfg sr \<Longrightarrow>
      0 \<le> maxLoc_x (matchTemplate e f sr (templateW cfg) (templateH cfg)) \<and>
      maxLoc_x (matchTemplate e f sr (templateW cfg) (templateH cfg))
        \<le> rect_width sr - templateW cfg \<and>
      0 \<le> maxLoc_y (matchTemplate e f sr (templateW cfg) (templateH cfg)) \<and>
      maxLoc_y (matchTemplate e f sr (templateW cfg) (templateH cfg))
        \<le> rect_height sr - templateH cfg"
  shows "0 \<le> searchMargin cfg \<Longrightarrow> K < endFrame cfg \<Longrightarrow> aborted e (K + 1) \<Longrightarrow>
     \<forall>g\<in>{f..K}. \<not> aborted e g \<and> fetch e g = None \<Longrightarrow> f \<le> K + 1 \<Longrightarrow> on_grid cfg c \<Longrightarrow>
     snd (templateMatch_loop cfg e f c) = Cancelled (K + 1)"
  using contract
proof (induction cfg e f c rule: templateMatch_loop.induct)
  case (1 cfg e f c)
  note contract = "1.prems"(7)
  from "1.prems" have le: "f \<le> endFrame cfg" by simp
  show ?case
  proof (cases "f = K + 1")
    case True
    with "1.prems"(3) have "templateMatch_body cfg e f c = Stop [] (Cancelled f)"
      by (simp add: templateMatch_body_def)
    with le have "snd (templateMatch_loop cfg e f c) = Cancelled f"
      by (simp add: templateMatch_loop.simps [of cfg e f c])
    with True show ?thesis by simp
  next
    case False
    with "1.prems"(5) have fK: "f \<in> {f..K}" by simp
    with "1.prems"(4) have here: "\<not> aborted e f" "fetch e f = None" by blast+
    from searchRect_fits [OF "1.prems"(6) "1.prems"(1)]
    have fits: "template_fits cfg (searchRect cfg c)" .
    from templateMatch_body_on_grid [OF contract here fits] obtain ys c' where
      body: "templateMatch_body cfg e f c = Continue ys c'" and grid: "on_grid cfg c'"
      by blast
    from "1.prems"(4) have rest: "\<forall>g\<in>{f + 1..K}. \<not> aborted e g \<and> fetch e g = None"
      by simp
    from fK have next_le: "f + 1 \<le> K + 1" by simp
    from "1.IH" [OF le body "1.prems"(1) "1.prems"(2) "1.prems"(3) rest next_le grid contract]
      le body
    show ?thesis
      by (simp add: templateMatch_loop.simps [of cfg e f c])
  qed
qed

text \<open>
  C6. Let the abort signal be unset at the loop-top checks of the frames up to \<open>K\<close> and
  set at the check of frame \<open>K + 1\<close>, with \<open>startFrame \<le> K < endFrame\<close>. Then, for
  either algorithm, the run yields at most \<open>K - startFrame\<close> results; it ends at the check
  of frame \<open>K + 1\<close> unless the tracker had stopped by itself (tracking lost or an
  exception) at a frame up to \<open>K\<close>; and when it ends at that check, it has yielded
  exactly \<open>K - startFrame\<close> results, for the frames \<open>startFrame + 1\<close> to \<open>K\<close>, and exactly
  \<open>K - startFrame\<close> progress records, and nothing after. The tracker does complete the
  frames up to \<open>K\<close>, so that the run ends at that check with exactly these yields, when
  every frame up to \<open>K\<close> is fetched and the tracking is not lost on them: for optical
  flow, when the status byte is 1 on those frames; for template matching, when the search
  margin is not negative and the matcher puts its maximum inside its result matrix.
\<close>

theorem cancel_between_frames:
  assumes "startFrame cfg \<le> K" and "K < endFrame cfg"
    and "\<forall>f\<in>{startFrame cfg + 1..K}. \<not> aborted e f" and "aborted e (K + 1)"
  shows "int (length (results_of (fst (trackObject cfg e)))) \<le> K - startFrame cfg \<and>
     (snd (trackObject cfg e) = Cancelled (K + 1) \<or>
      (\<exists>g\<in>{startFrame cfg..K}. snd (trackObject cfg e) = Lost g \<or>
         (\<exists>err. snd (trackObject cfg e) = Threw g err))) \<and>
     (snd (trackObject cfg e) = Cancelled (K + 1) \<longrightarrow>
        int (length (results_of (fst (trackObject cfg e)))) = K - startFrame cfg \<and>
        int (length (progress_of (fst (trackObject cfg e)))) = K - startFrame cfg \<and>
        map frameNumber (results_of (fst (trackObject cfg e))) = [startFrame cfg + 1 .. K]) \<and>
     ((\<forall>f\<in>{startFrame cfg..K}. fetch e f = None) \<and>
      (algorithm cfg = OpticalFlow \<longrightarrow>
         (\<forall>f\<in>{startFrame cfg + 1..K}. \<forall>f' p. fst (calcOpticalFlowPyrLK e f' f p) = 1)) \<and>
      (algorithm cfg \<noteq> OpticalFlow \<longrightarrow>
         0 \<le> searchMargin cfg \<and>
         (\<forall>f sr. template_fits cfg sr \<longrightarrow>
            0 \<le> maxLoc_x (matchTemplate e f sr (templateW cfg) (templateH cfg)) \<and>
            maxLoc_x (matchTemplate e f sr (templateW cfg) (templateH cfg))
              \<le> rect_width sr - templateW cfg \<and>
            0 \<le> maxLoc_y (matchTemplate e f sr (templateW cfg) (templateH cfg)) \<and>
            maxLoc_y (matchTemplate e f sr (templateW cfg) (templateH cfg))
              \<le> rect_height sr - templateH cfg)) \<longrightarrow>
        snd (trackObject cfg e) = Cancelled (K + 1) \<and>
        int (length (results_of (fst (trackObject cfg e)))) = K - startFrame cfg \<and>
        int (length (progress_of (fst (trackObject cfg e)))) = K - startFrame cfg \<and>
        map frameNumber (results_of (fst (trackObject cfg e))) = [startFrame cfg + 1 .. K])"
proof -
  let ?s = "startFrame cfg"
  let ?is = "fst (trackObject cfg e)"
  let ?fin = "snd (trackObject cfg e)"
  have general: "int (length (results_of ?is)) \<le> K - ?s \<and>
     (?fin = Cancelled (K + 1) \<or>
      (\<exists>g\<in>{?s..K}. ?fin = Lost g \<or> (\<exists>err. ?fin = Threw g err))) \<and>
     (?fin = Cancelled (K + 1) \<longrightarrow>
        int (length (results_of ?is)) = K - ?s \<and>
        int (length (progress_of ?is)) = K - ?s \<and>
        map frameNumber (results_of ?is) = [?s + 1 .. K])"
  proof (cases rule: trackObject_cases [of cfg e])
    case (threw err)
    with assms(1) show ?thesis by auto
  next
    case run
    from assms(1) have le: "?s + 1 \<le> K + 1" by simp
    from run_from_cancel [OF run le assms(2) assms(3) assms(4)]
    have a: "int (length (results_of ?is)) \<le> K - ?s"
      and b: "?fin = Cancelled (K + 1) \<or>
        (\<exists>g\<in>{?s + 1..K}. ?fin = Lost g \<or> (\<exists>err. ?fin = Threw g err))"
      and c: "?fin = Cancelled (K + 1) \<longrightarrow>
          int (length (results_of ?is)) = K - ?s \<and> int (length (progress_of ?is)) = K - ?s"
      by simp_all
    from b have b': "?fin = Cancelled (K + 1) \<or>
        (\<exists>g\<in>{?s..K}. ?fin = Lost g \<or> (\<exists>err. ?fin = Threw g err))"
      by auto
    have d: "?fin = Cancelled (K + 1) \<longrightarrow> map frameNumber (results_of ?is) = [?s + 1 .. K]"
    proof
      assume "?fin = Cancelled (K + 1)"
      with c have "int (length (results_of ?is)) = K - ?s" by simp
      with run_from_results [OF run]
      show "map frameNumber (results_of ?is) = [?s + 1 .. K]" by simp
    qed
    from a b' c d show ?thesis by blast
  qed
  have reached: "?fin = Cancelled (K + 1)"
    if fetched: "\<forall>f\<in>{?s..K}. fetch e f = None"
      and flow: "algorithm cfg = OpticalFlow \<longrightarrow>
         (\<forall>f\<in>{?s + 1..K}. \<forall>f' p. fst (calcOpticalFlowPyrLK e f' f p) = 1)"
      and match: "algorithm cfg \<noteq> OpticalFlow \<longrightarrow>
         0 \<le> searchMargin cfg \<and>
         (\<forall>f sr. template_fits cfg sr \<longrightarrow>
            0 \<le> maxLoc_x (matchTemplate e f sr (templateW cfg) (templateH cfg)) \<and>
            maxLoc_x (matchTemplate e f sr (templateW cfg) (templateH cfg))
              \<le> rect_width sr - templateW cfg \<and>
            0 \<le> maxLoc_y (matchTemplate e f sr (templateW cfg) (templateH cfg)) \<and>
            maxLoc_y (matchTemplate e f sr (templateW cfg) (templateH cfg))
              \<le> rect_height sr - templateH cfg)"
  proof -
    from assms(1) fetched have start: "fetch e ?s = None" by simp
    from assms(1) have le: "?s + 1 \<le> K + 1" by simp
    show ?thesis
    proof (cases "algorithm cfg = OpticalFlow")
      case True
      with flow fetched assms(3)
      have frames: "\<forall>g\<in>{?s + 1..K}. \<not> aborted e g \<and> fetch e g = None \<and>
           (\<forall>f' p. fst (calcOpticalFlowPyrLK e f' g p) = 1)"
        by simp
      from opticalFlow_loop_cancelled [OF assms(2) assms(4) frames le] True start
      show ?thesis
        by (simp add: trackObject_def opticalFlowTrack_def)
    next
      case False
      with match have margin: "0 \<le> searchMargin cfg"
        and contract: "\<And>f sr. template_fits cfg sr \<Longrightarrow>
            0 \<le> maxLoc_x (matchTemplate e f sr (templateW cfg) (templateH cfg)) \<and>
            maxLoc_x (matchTemplate e f sr (templateW cfg) (templateH cfg))
              \<le> rect_width sr - templateW cfg \<and>
            0 \<le> maxLoc_y (matchTemplate e f sr (templateW cfg) (templateH cfg)) \<and>
            maxLoc_y (matchTemplate e f sr (templateW cfg) (templateH cfg))
              \<le> rect_height sr - templateH cfg"
        by blast+
      from fetched assms(3)
      have frames: "\<forall>g\<in>{?s + 1..K}. \<not> aborted e g \<and> fetch e g = None"
        by simp
      from templateMatch_loop_cancelled [OF contract margin assms(2) assms(4) frames le
          initialCenter_on_grid] False start
      show ?thesis
        by (simp add: trackObject_def templateMatchTrack_def)
    qed
  qed
  from general reached show ?thesis by blast
qed

text \<open>
  Both trackers on the example, cancelled between the frames 12 and 13: each yields the
  results of the frames 11 and 12 and two progress records, and ends at the check of
  frame 13.
\<close>

theorem cancel_between_frames_witness:
  "startFrame (ex_config OpticalFlow 20) \<le> 12 \<and> 12 < endFrame (ex_config OpticalFlow 20) \<and>
   \<not> aborted (ex_env 13 100) 11 \<and> \<not> aborted (ex_env 13 100) 12 \<and>
   aborted (ex_env 13 100) (12 + 1) \<and>
   snd (trackObject (ex_config OpticalFlow 20) (ex_env 13 100)) = Cancelled 13 \<and>
   length (results_of (fst (trackObject (ex_config OpticalFlow 20) (ex_env 13 100)))) = 2 \<and>
   length (progress_of (fst (trackObject (ex_config OpticalFlow 20) (ex_env 13 100)))) = 2 \<and>
   map frameNumber (results_of (fst (trackObject (ex_config OpticalFlow 20) (ex_env 13 100)))) =
     [11, 12] \<and>
   snd (trackObject (ex_config Template 20) (ex_env 13 100)) = Cancelled 13 \<and>
   length (results_of (fst (trackObject (ex_config Template 20) (ex_env 13 100)))) = 2 \<and>
   length (progress_of (fst (trackObject (ex_config Template 20) (ex_env 13 100)))) = 2 \<and>
   map frameNumber (results_of (fst (trackObject (ex_config Template 20) (ex_env 13 100)))) =
     [11, 12]"
proof -
  have h: "startFrame (ex_config alg 20) \<le> 12" "12 < endFrame (ex_config alg 20)"
    "\<forall>f\<in>{startFrame (ex_config alg 20) + 1..12}. \<not> aborted (ex_env 13 100) f" for alg
    by (simp_all add: ex_config_def ex_env_def)
  have ab: "aborted (ex_env 13 100) (12 + 1)"
    by (simp add: ex_env_def)
  have n: "\<not> aborted (ex_env 13 100) 11" "\<not> aborted (ex_env 13 100) 12"
    by (simp_all add: ex_env_def)
  have s: "startFrame (ex_config alg 20) = 10" "algorithm (ex_config alg 20) = alg"
    "searchMargin (ex_config alg 20) = 20" for alg
    by (simp_all add: ex_config_def)
  have fetched: "\<forall>f\<in>{startFrame (ex_config alg 20)..12}. fetch (ex_env 13 100) f = None" for alg
    by (simp add: ex_env_def)
  have flow: "\<forall>f\<in>{startFrame (ex_config OpticalFlow 20) + 1..12}. \<forall>f' p.
      fst (calcOpticalFlowPyrLK (ex_env 13 100) f' f p) = 1"
    by (simp add: ex_env_def)
  have contract: "\<forall>f sr. template_fits (ex_config Template 20) sr \<longrightarrow>
      0 \<le> maxLoc_x (matchTemplate (ex_env 13 100) f sr (templateW (ex_config Template 20))
             (templateH (ex_config Template 20))) \<and>
      maxLoc_x (matchTemplate (ex_env 13 100) f sr (templateW (ex_config Template 20))
             (templateH (ex_config Template 20)))
        \<le> rect_width sr - templateW (ex_config Template 20) \<and>
      0 \<le> maxLoc_y (matchTemplate (ex_env 13 100) f sr (templateW (ex_config Template 20))
             (templateH (ex_config Template 20))) \<and>
      maxLoc_y (matchTemplate (ex_env 13 100) f sr (templateW (ex_config Template 20))
             (templateH (ex_config Template 20)))
        \<le> rect_height sr - templateH (ex_config Template 20)"
    by (simp add: template_fits_def ex_env_def) linarith
  have upto: "[11 .. 12] = [11, 12 :: int]" by code_simp
  from cancel_between_frames [OF h [of OpticalFlow] ab] fetched [of OpticalFlow] flow
  have "snd (trackObject (ex_config OpticalFlow 20) (ex_env 13 100)) = Cancelled (12 + 1) \<and>
        int (length (results_of (fst (trackObject (ex_config OpticalFlow 20) (ex_env 13 100))))) =
          12 - startFrame (ex_config OpticalFlow 20) \<and>
        int (length (progress_of (fst (trackObject (ex_config OpticalFlow 20) (ex_env 13 100))))) =
          12 - startFrame (ex_config OpticalFlow 20) \<and>
        map frameNumber (results_of (fst (trackObject (ex_config OpticalFlow 20) (ex_env 13 100)))) =
          [startFrame (ex_config OpticalFlow 20) + 1 .. 12]"
    by (simp add: s)
  then have flo: "snd (trackObject (ex_config OpticalFlow 20) (ex_env 13 100)) = Cancelled 13"
    "length (results_of (fst (trackObject (ex_config OpticalFlow 20) (ex_env 13 100)))) = 2"
    "length (progress_of (fst (trackObject (ex_config OpticalFlow 20) (ex_env 13 100)))) = 2"
    "map frameNumber (results_of (fst (trackObject (ex_config OpticalFlow 20) (ex_env 13 100)))) =
       [11, 12]"
    by (simp_all add: s upto)
  from cancel_between_frames [OF h [of Template] ab] fetched [of Template] contract
  have "snd (trackObject (ex_config Template 20) (ex_env 13 100)) = Cancelled (12 + 1) \<and>
        int (length (results_of (fst (trackObject (ex_config Template 20) (ex_env 13 100))))) =
          12 - startFrame (ex_config Template 20) \<and>
        int (length (progress_of (fst (trackObject (ex_config Template 20) (ex_env 13 100))))) =
          12 - startFrame (ex_config Template 20) \<and>
        map frameNumber (results_of (fst (trackObject (ex_config Template 20) (ex_env 13 100)))) =
          [startFrame (ex_config Template 20) + 1 .. 12]"
    by (simp add: s)
  then have tm: "snd (trackObject (ex_config Template 20) (ex_env 13 100)) = Cancelled 13"
    "length (results_of (fst (trackObject (ex_config Template 20) (ex_env 13 100)))) = 2"
    "length (progress_of (fst (trackObject (ex_config Template 20) (ex_env 13 100)))) = 2"
    "map frameNumber (results_of (fst (trackObject (ex_config Template 20) (ex_env 13 100)))) =
       [11, 12]"
    by (simp_all add: s upto)
  from h(1,2) [of OpticalFlow] ab n flo tm show ?thesis by simp
qed

section \<open>seekToFrame\<close>

text \<open>
  C7, as amended. When the playback position is less than 0.001 s from the target time,
  \<open>seekToFrame\<close> resolves at once and leaves the media element as it was: no seek is
  started, no listener is registered, no timer is armed. Otherwise it arms a timer of
  5000 ms, registers the \<open>seeked\<close> listener, assigns the target time (which starts the
  seek) and stays pending. If the \<open>seeked\<close> event comes first, the promise resolves, and
  the timer, cleared, changes nothing after. If the timer fires first, the promise is
  rejected with a plain \<open>Error\<close> (its name is \<open>Error\<close>, its message
  \<open>Seek timed out at time=\<close> followed by the time), and a later \<open>seeked\<close> event changes
  nothing.
\<close>

theorem seekToFrame_tolerance:
  "(\<bar>currentTime v - time\<bar> < 1 / 1000 \<longrightarrow>
      seekToFrame v time =
        \<lparr>seek_video = v, onSeekedRegistered = False, timeoutId = None, settled = Resolved\<rparr>) \<and>
   (\<not> \<bar>currentTime v - time\<bar> < 1 / 1000 \<longrightarrow>
      seekToFrame v time =
        \<lparr>seek_video = v\<lparr>currentTime := time, seeks := seeks v @ [time]\<rparr>,
         onSeekedRegistered = True, timeoutId = Some 5000, settled = Pending\<rparr> \<and>
      onSeeked (seekToFrame v time) =
        \<lparr>seek_video = v\<lparr>currentTime := time, seeks := seeks v @ [time]\<rparr>,
         onSeekedRegistered = False, timeoutId = None, settled = Resolved\<rparr> \<and>
      onTimeout toStr time (onSeeked (seekToFrame v time)) = onSeeked (seekToFrame v time) \<and>
      onTimeout toStr time (seekToFrame v time) =
        \<lparr>seek_video = v\<lparr>currentTime := time, seeks := seeks v @ [time]\<rparr>,
         onSeekedRegistered = False, timeoutId = None,
         settled = Rejected \<lparr>err_name = ''Error'',
                              err_message = ''Seek timed out at time='' @ toStr time\<rparr>\<rparr> \<and>
      onSeeked (onTimeout toStr time (seekToFrame v time)) =
        onTimeout toStr time (seekToFrame v time))"
  by (simp add: seekToFrame_def onSeeked_def onTimeout_def settle_def seekTimeoutError_def
      Let_def)

theorem seekToFrame_tolerance_witness:
  "\<bar>currentTime ex_media - (1 / 3 + 1 / 2000)\<bar> < 1 / 1000 \<and>
   seekToFrame ex_media (1 / 3 + 1 / 2000) =
     \<lparr>seek_video = ex_media, onSeekedRegistered = False, timeoutId = None, settled = Resolved\<rparr> \<and>
   \<not> \<bar>currentTime ex_media - 1 / 2\<bar> < 1 / 1000 \<and>
   seekToFrame ex_media (1 / 2) =
     \<lparr>seek_video = \<lparr>currentTime = 1 / 2, seeks = [1 / 2]\<rparr>,
      onSeekedRegistered = True, timeoutId = Some 5000, settled = Pending\<rparr> \<and>
   settled (onSeeked (seekToFrame ex_media (1 / 2))) = Resolved \<and>
   settled (onTimeout ex_toStr (1 / 2) (onSeeked (seekToFrame ex_media (1 / 2)))) = Resolved \<and>
   settled (onTimeout ex_toStr (1 / 2) (seekToFrame ex_media (1 / 2))) =
     Rejected \<lparr>err_name = ''Error'', err_message = ''Seek timed out at time=0.5''\<rparr> \<and>
   settled (onSeeked (onTimeout ex_toStr (1 / 2) (seekToFrame ex_media (1 / 2)))) =
     Rejected \<lparr>err_name = ''Error'', err_message = ''Seek timed out at time=0.5''\<rparr>"
proof -
  have near: "\<bar>currentTime ex_media - (1 / 3 + 1 / 2000)\<bar> < 1 / 1000"
    and far: "\<not> \<bar>currentTime ex_media - 1 / 2\<bar> < 1 / 1000"
    by (simp_all add: ex_media_def)
  from seekToFrame_tolerance [of ex_media "1 / 3 + 1 / 2000"] near
  have a: "seekToFrame ex_media (1 / 3 + 1 / 2000) =
     \<lparr>seek_video = ex_media, onSeekedRegistered = False, timeoutId = None, settled = Resolved\<rparr>"
    by blast
  note far_case = seekToFrame_tolerance [of ex_media "1 / 2" ex_toStr, THEN conjunct2, rule_format,
      OF far]
  note f1 = far_case [THEN conjunct1]
    and f2 = far_case [THEN conjunct2, THEN conjunct1]
    and f3 = far_case [THEN conjunct2, THEN conjunct2, THEN conjunct1]
    and f4 = far_case [THEN conjunct2, THEN conjunct2, THEN conjunct2, THEN conjunct1]
    and f5 = far_case [THEN conjunct2, THEN conjunct2, THEN conjunct2, THEN conjunct2]
  have b: "seekToFrame ex_media (1 / 2) =
     \<lparr>seek_video = \<lparr>currentTime = 1 / 2, seeks = [1 / 2]\<rparr>,
      onSeekedRegistered = True, timeoutId = Some 5000, settled = Pending\<rparr>"
    unfolding f1 by (simp add: ex_media_def)
  have c: "settled (onSeeked (seekToFrame ex_media (1 / 2))) = Resolved"
    unfolding f2 by simp
  have d: "settled (onTimeout ex_toStr (1 / 2) (onSeeked (seekToFrame ex_media (1 / 2)))) = Resolved"
    unfolding f3 unfolding f2 by simp
  have e: "settled (onTimeout ex_toStr (1 / 2) (seekToFrame ex_media (1 / 2))) =
      Rejected \<lparr>err_name = ''Error'', err_message = ''Seek timed out at time=0.5''\<rparr>"
    unfolding f4 by (simp add: ex_toStr_def)
  have f: "settled (onSeeked (onTimeout ex_toStr (1 / 2) (seekToFrame ex_media (1 / 2)))) =
      Rejected \<lparr>err_name = ''Error'', err_message = ''Seek timed out at time=0.5''\<rparr>"
    unfolding f5 unfolding f4 by (simp add: ex_toStr_def)
  from near far a b c d e f show ?thesis by blast
qed

text \<open>
  C7 as stated fails on the kind of the error: the rejection of the example seek, when
  its timer fires, is not a \<open>TimeoutError\<close>.
\<close>

theorem seek_timeout_is_plain_error_counterexample:
  "\<not> (case settled (onTimeout ex_toStr (1 / 2) (seekToFrame ex_media (1 / 2))) of
         Rejected err \<Rightarrow> err_name err = ''TimeoutError''
       | _ \<Rightarrow> False)"
  by (simp add: seekToFrame_def onTimeout_def settle_def seekTimeoutError_def ex_media_def
      Let_def)

section \<open>Validation of the configuration\<close>

text \<open>
  C8. The validation accepts the three fields, with the values \<open>sf\<close>, \<open>ef\<close> and \<open>m\<close>,
  if and only if \<open>parseInt\<close> yields these numbers for them (none is NaN), \<open>sf < ef\<close>, and
  both \<open>sf\<close> and \<open>ef\<close> lie in \<open>[0, frameCount]\<close>. When it rejects them (the handler
  having a region, a track and a known algorithm), the handler shows the one message and
  returns with the session as it was: the modal still shown, the track untouched, no
  tracking started.
\<close>

theorem validation_accepts_iff:
  "(validate parse d count = Inr (sf, ef, m) \<longleftrightarrow>
      parse (data_startFrame d) = Some sf \<and> parse (data_endFrame d) = Some ef \<and>
      parse (data_searchMargin d) = Some m \<and>
      sf < ef \<and> 0 \<le> sf \<and> sf \<le> count \<and> 0 \<le> ef \<and> ef \<le> count) \<and>
   (currentROI s = Some r \<and> track s = Some tr \<and>
    (data_algorithm d = ''template'' \<or> data_algorithm d = ''optical-flow'') \<and>
    validate (parseInt w) d (frameCount (timeline s)) = Inl a \<longrightarrow>
      autoTrackSubmit w (Some d) s = (s, [a], Returned))"
proof -
  have accept: "validate parse d count = Inr (sf, ef, m) \<longleftrightarrow>
      parse (data_startFrame d) = Some sf \<and> parse (data_endFrame d) = Some ef \<and>
      parse (data_searchMargin d) = Some m \<and>
      sf < ef \<and> 0 \<le> sf \<and> sf \<le> count \<and> 0 \<le> ef \<and> ef \<le> count"
    by (auto simp: validate_def split: option.splits)
  have reject: "autoTrackSubmit w (Some d) s = (s, [a], Returned)"
    if "currentROI s = Some r" "track s = Some tr"
      "data_algorithm d = ''template'' \<or> data_algorithm d = ''optical-flow''"
      "validate (parseInt w) d (frameCount (timeline s)) = Inl a"
    using that by (auto simp: autoTrackSubmit_def)
  from accept reject show ?thesis by blast
qed

text \<open>
  An accepted submission (frames 10 to 15 of 20) and three rejected ones: an inverted
  range, an end frame beyond the last frame, a field that is not a number.
\<close>

theorem validation_accepts_iff_witness:
  "validate ex_parseInt (ex_data ''10'' ''15'') 20 = Inr (10, 15, 20) \<and>
   validate ex_parseInt (ex_data ''15'' ''10'') 20 = Inl EndFrameAlert \<and>
   validate ex_parseInt (ex_data ''10'' ''25'') 20 = Inl (RangeAlert 20) \<and>
   validate ex_parseInt (ex_data ''abc'' ''15'') 20 = Inl NumbersAlert \<and>
   autoTrackSubmit (ex_world 100 100) (Some (ex_data ''15'' ''10'')) ex_session =
     (ex_session, [EndFrameAlert], Returned) \<and>
   autoTrackSubmit (ex_world 100 100) (Some (ex_data ''10'' ''25'')) ex_session =
     (ex_session, [RangeAlert 20], Returned)"
proof -
  have p: "ex_parseInt ''10'' = Some 10" "ex_parseInt ''15'' = Some 15"
    "ex_parseInt ''20'' = Some 20" "ex_parseInt ''25'' = Some 25" "ex_parseInt ''abc'' = None"
    by (simp_all add: ex_parseInt_def)
  have s: "currentROI ex_session =
      Some \<lparr>roi_x = 100, roi_y = 50, roi_width = 40, roi_height = 40\<rparr>"
    "track ex_session = Some ex_track" "frameCount (timeline ex_session) = 20"
    "parseInt (ex_world 100 100) = ex_parseInt"
    by (simp_all add: ex_session_def ex_world_def)
  have alg: "data_algorithm (ex_data sf ef) = ''optical-flow''" for sf ef
    by (simp add: ex_data_def)
  from validation_accepts_iff [of ex_parseInt "ex_data ''10'' ''15''" 20 10 15 20] p
  have a: "validate ex_parseInt (ex_data ''10'' ''15'') 20 = Inr (10, 15, 20)"
    by (simp add: ex_data_def)
  have b: "validate ex_parseInt (ex_data ''15'' ''10'') 20 = Inl EndFrameAlert"
    "validate ex_parseInt (ex_data ''10'' ''25'') 20 = Inl (RangeAlert 20)"
    "validate ex_parseInt (ex_data ''abc'' ''15'') 20 = Inl NumbersAlert"
    by (simp_all add: validate_def ex_data_def p)
  from validation_accepts_iff [of _ "ex_data ''15'' ''10''" _ _ _ _ ex_session _ ex_track
      "ex_world 100 100" EndFrameAlert] s alg b
  have c: "autoTrackSubmit (ex_world 100 100) (Some (ex_data ''15'' ''10'')) ex_session =
     (ex_session, [EndFrameAlert], Returned)"
    by simp
  from validation_accepts_iff [of _ "ex_data ''10'' ''25''" _ _ _ _ ex_session _ ex_track
      "ex_world 100 100" "RangeAlert 20"] s alg b
  have d: "autoTrackSubmit (ex_world 100 100) (Some (ex_data ''10'' ''25'')) ex_session =
     (ex_session, [RangeAlert 20], Returned)"
    by simp
  from a b c d show ?thesis by blast
qed
section \<open>Consumption and commit\<close>

lemma consume_results: "fst (consume is rs tx) = rs @ accepted is"
  by (induction "is" rs tx rule: consume.induct) (simp_all add: accepted_def)

lemma consume_broke:
  "snd (snd (consume is rs tx)) \<longleftrightarrow> (\<exists>r\<in>set (results_of is). confidence r < 1 / 2)"
  by (induction "is" rs tx rule: consume.induct) simp_all

lemma accepted_confident: "r \<in> set (accepted is) \<Longrightarrow> \<not> confidence r < 1 / 2"
  unfolding accepted_def by (auto dest: set_takeWhileD)

lemma commit_point_update:
  assumes "frames tline k = Some fr"
  shows "commit_point (tline\<lparr>frames := (frames tline)(k \<mapsto> fr\<lparr>frame_points := ps\<rparr>),
                          activeFrames := af\<rparr>) = commit_point tline"
  using assms by (auto simp: commit_point_def fun_eq_iff)

text \<open>
  One step of the commit loop for a result whose frame the timeline has: the track gets
  the new point at the number of that frame, the timeline keeps the numbers of its
  frames, and the point is added to the batch.
\<close>

lemma commit_loop_Cons_Some:
  assumes fr: "frames tline (frameNumber r) = Some fr"
  shows "\<exists>tr' tline'.
     commit_loop ex (r # rs) tr tline added =
       commit_loop ex rs tr' tline'
         (added @ [\<lparr>pt_frame = frame_number fr, pt_x = x r, pt_y = y r\<rparr>]) \<and>
     commit_point tline' = commit_point tline \<and>
     ((\<forall>f p. points tr f = Some p \<longrightarrow> pt_frame p = f) \<longrightarrow>
        points tr' =
          (points tr)(frame_number fr \<mapsto> \<lparr>pt_frame = frame_number fr, pt_x = x r, pt_y = y r\<rparr>))"
proof -
  define point where "point = \<lparr>pt_frame = frame_number fr, pt_x = x r, pt_y = y r\<rparr>"
  define tr1 where "tr1 = (case points tr (frame_number fr) of
                      Some existing \<Rightarrow> Point_remove existing tr | None \<Rightarrow> tr)"
  define tr2 where "tr2 = tr1\<lparr>points := (points tr1)(frame_number fr \<mapsto> point)\<rparr>"
  define tl1 where "tl1 = tline\<lparr>frames := (frames tline)(frameNumber r \<mapsto>
                                      fr\<lparr>frame_points := frame_points fr @ [point]\<rparr>),
                      activeFrames := activeFrames tline @ [frame_number fr]\<rparr>"
  define tr3 where "tr3 = (case ex point of
                      Some pointData \<Rightarrow> Table_addRow pointData tr2 | None \<Rightarrow> tr2)"
  have step: "commit_loop ex (r # rs) tr tline added = commit_loop ex rs tr3 tl1 (added @ [point])"
    unfolding tr3_def tr2_def tr1_def tl1_def point_def
    by (simp add: fr Let_def)
  have keep: "commit_point tl1 = commit_point tline"
    unfolding tl1_def by (rule commit_point_update [OF fr])
  have pts: "points tr3 = (points tr)(frame_number fr \<mapsto> point)"
    if wf: "\<forall>f p. points tr f = Some p \<longrightarrow> pt_frame p = f"
  proof -
    from wf have "points tr1 = points tr \<or> points tr1 = (points tr)(frame_number fr := None)"
      by (auto simp: tr1_def Point_remove_def split: option.splits)
    then show ?thesis
      by (auto simp: tr3_def tr2_def Table_addRow_def split: option.splits)
  qed
  from step keep pts show ?thesis
    unfolding point_def by blast
qed

lemma commit_loop_added:
  "snd (snd (commit_loop ex rs tr tline added)) =
     added @ List.map_filter (commit_point tline) rs"
proof (induction rs arbitrary: tr tline added)
  case Nil
  then show ?case by (simp add: List.map_filter_simps)
next
  case (Cons r rs)
  show ?case
  proof (cases "frames tline (frameNumber r)")
    case None
    with Cons.IH [of tr tline added] show ?thesis
      by (simp add: List.map_filter_simps commit_point_def)
  next
    case (Some fr)
    from commit_loop_Cons_Some [OF Some, of ex rs tr added] obtain tr' tline' where
      step: "commit_loop ex (r # rs) tr tline added =
        commit_loop ex rs tr' tline'
          (added @ [\<lparr>pt_frame = frame_number fr, pt_x = x r, pt_y = y r\<rparr>])"
      and keep: "commit_point tline' = commit_point tline"
      by blast
    from Cons.IH [of tr' tline' "added @ [\<lparr>pt_frame = frame_number fr, pt_x = x r, pt_y = y r\<rparr>]"]
    show ?thesis
      unfolding step keep by (simp add: List.map_filter_simps commit_point_def Some)
  qed
qed

lemma commit_loop_points:
  assumes "\<forall>f p. points tr f = Some p \<longrightarrow> pt_frame p = f"
  shows "points (fst (commit_loop ex rs tr tline added)) =
     points tr ++
       map_of (rev (map (\<lambda>p. (pt_frame p, p)) (List.map_filter (commit_point tline) rs)))"
  using assms
proof (induction rs arbitrary: tr tline added)
  case Nil
  then show ?case by (simp add: List.map_filter_simps)
next
  case (Cons r rs)
  show ?case
  proof (cases "frames tline (frameNumber r)")
    case None
    with Cons.IH [OF Cons.prems, of tline added] show ?thesis
      by (simp add: List.map_filter_simps commit_point_def)
  next
    case (Some fr)
    let ?p = "\<lparr>pt_frame = frame_number fr, pt_x = x r, pt_y = y r\<rparr>"
    let ?rest = "map (\<lambda>p. (pt_frame p, p)) (List.map_filter (commit_point tline) rs)"
    from commit_loop_Cons_Some [OF Some, of ex rs tr added] Cons.prems obtain tr' tline' where
      step: "commit_loop ex (r # rs) tr tline added = commit_loop ex rs tr' tline' (added @ [?p])"
      and keep: "commit_point tline' = commit_point tline"
      and pts: "points tr' = (points tr)(frame_number fr \<mapsto> ?p)"
      by blast
    from Cons.prems have wf': "\<forall>f p. points tr' f = Some p \<longrightarrow> pt_frame p = f"
      by (auto simp: pts)
    from Cons.IH [OF wf', of tline' "added @ [?p]"]
    have "points (fst (commit_loop ex (r # rs) tr tline added)) = points tr' ++ map_of (rev ?rest)"
      unfolding step keep .
    also have "points tr' = points tr ++ map_of [(frame_number fr, ?p)]"
      by (simp add: pts)
    also have "(points tr ++ map_of [(frame_number fr, ?p)]) ++ map_of (rev ?rest) =
        points tr ++ (map_of [(frame_number fr, ?p)] ++ map_of (rev ?rest))"
      by (simp only: map_add_assoc)
    also have "map_of [(frame_number fr, ?p)] ++ map_of (rev ?rest) =
        map_of (rev ?rest @ [(frame_number fr, ?p)])"
      by (simp only: map_of_append)
    also have "rev ?rest @ [(frame_number fr, ?p)] =
        rev (map (\<lambda>p. (pt_frame p, p)) (List.map_filter (commit_point tline) (r # rs)))"
      by (simp add: List.map_filter_simps commit_point_def Some)
    finally show ?thesis .
  qed
qed

text \<open>
  C3, as amended. The consumption loop accumulates exactly the results yielded before the
  first one whose confidence is below 0.5 (all of them if there is none, whatever way the
  run ended): none of the accumulated results is below the threshold, and the loop leaves
  by \<open>break\<close> exactly when a result below the threshold is yielded. When at least one
  result was accumulated, the commit creates a point for each accumulated result that has
  a frame in the timeline, and for no other: these points, in order, are the batch of the
  one undo action it registers. If the track held each of its points under the number of
  the point's frame, then after the session \<open>track.points\<close> is what it was, overwritten
  by each of these points at the number of its frame.
\<close>

theorem accepted_results_committed:
  "fst (consume (fst (trackObject config (trackerEnv w))) [] tx) =
     takeWhile (\<lambda>r. \<not> confidence r < 1 / 2) (results_of (fst (trackObject config (trackerEnv w)))) \<and>
   (\<forall>r\<in>set (fst (consume (fst (trackObject config (trackerEnv w))) [] tx)).
      \<not> confidence r < 1 / 2) \<and>
   (snd (snd (consume (fst (trackObject config (trackerEnv w))) [] tx)) \<longleftrightarrow>
      (\<exists>r\<in>set (results_of (fst (trackObject config (trackerEnv w)))). confidence r < 1 / 2)) \<and>
   (accepted (fst (trackObject config (trackerEnv w))) \<noteq> [] \<longrightarrow>
      history (fst (runTracking w config tr originalFrame s)) =
        history s @
          [AutoTrackBatch (List.map_filter (commit_point (timeline s))
             (accepted (fst (trackObject config (trackerEnv w)))))]) \<and>
   (accepted (fst (trackObject config (trackerEnv w))) \<noteq> [] \<and>
    (\<forall>f p. points tr f = Some p \<longrightarrow> pt_frame p = f) \<longrightarrow>
      (\<exists>tr'. track (fst (runTracking w config tr originalFrame s)) = Some tr' \<and>
         points tr' =
           points tr ++
             map_of (rev (map (\<lambda>p. (pt_frame p, p))
               (List.map_filter (commit_point (timeline s))
                  (accepted (fst (trackObject config (trackerEnv w)))))))))"
proof -
  let ?is = "fst (trackObject config (trackerEnv w))"
  let ?acc = "accepted ?is"
  let ?added = "List.map_filter (commit_point (timeline s)) ?acc"
  have a: "fst (consume ?is [] tx) =
       takeWhile (\<lambda>r. \<not> confidence r < 1 / 2) (results_of ?is)"
    by (simp add: consume_results accepted_def)
  have "fst (consume ?is [] tx) = ?acc"
    by (simp add: consume_results)
  then have b: "\<forall>r\<in>set (fst (consume ?is [] tx)). \<not> confidence r < 1 / 2"
    using accepted_confident [of _ ?is] by metis
  have d: "snd (snd (consume ?is [] tx)) \<longleftrightarrow>
      (\<exists>r\<in>set (results_of ?is). confidence r < 1 / 2)"
    by (rule consume_broke)
  have c: "history (fst (runTracking w config tr originalFrame s)) =
          history s @ [AutoTrackBatch ?added] \<and>
        (\<exists>tr'. track (fst (runTracking w config tr originalFrame s)) = Some tr' \<and>
           ((\<forall>f p. points tr f = Some p \<longrightarrow> pt_frame p = f) \<longrightarrow>
            points tr' = points tr ++ map_of (rev (map (\<lambda>p. (pt_frame p, p)) ?added))))"
    if ne: "?acc \<noteq> []"
  proof -
    obtain items fin where run: "trackObject config (trackerEnv w) = (items, fin)"
      by (cases "trackObject config (trackerEnv w)")
    obtain results tx' broke where con: "consume items [] (modalText s) = (results, tx', broke)"
      by (cases "consume items [] (modalText s)")
    obtain tr' tl' added where
      cl: "commit_loop (export w) results tr (timeline s) [] = (tr', tl', added)"
      by (cases "commit_loop (export w) results tr (timeline s) []")
    from consume_results [of items "[]" "modalText s"] con run
    have res: "results = ?acc" by simp
    from commit_loop_added [of "export w" results tr "timeline s" "[]"] cl
    have added: "added = ?added"
      by (simp add: res)
    have pts: "points tr' = points tr ++ map_of (rev (map (\<lambda>p. (pt_frame p, p)) ?added))"
      if wf: "\<forall>f p. points tr f = Some p \<longrightarrow> pt_frame p = f"
      using commit_loop_points [OF wf, of "export w" results "timeline s" "[]"] cl
      by (simp add: res)
    from ne res have len: "length results > 0" by simp
    have fin: "history (fst (runTracking w config tr originalFrame s)) =
          history s @ [AutoTrackBatch added]"
      "track (fst (runTracking w config tr originalFrame s)) = Some tr'"
      using len
      by (simp_all add: runTracking_def run con cl commit_def cleanup_def
          cleanupROISelection_def master_change_def Modal_setText_def Modal_hide_def
          Modal_clear_def Timeline_seek_def Let_def)
    from fin added pts show ?thesis by auto
  qed
  from a b c d show ?thesis by blast
qed

text \<open>
  The example in which the optical flow is lost at frame 13, on the track that already
  has a point at frame 11: the results of the frames 11 and 12 are accumulated and
  committed, the zero-confidence result of frame 13 is not.
\<close>

theorem accepted_results_committed_witness:
  "accepted (fst (trackObject (ex_config OpticalFlow 20) (trackerEnv (ex_world 100 13)))) =
     [\<lparr>frameNumber = 11, x = 121, y = 70, confidence = 1\<rparr>,
      \<lparr>frameNumber = 12, x = 122, y = 70, confidence = 1\<rparr>] \<and>
   fst (consume (fst (trackObject (ex_config OpticalFlow 20) (trackerEnv (ex_world 100 13))))
          [] NoText) =
     [\<lparr>frameNumber = 11, x = 121, y = 70, confidence = 1\<rparr>,
      \<lparr>frameNumber = 12, x = 122, y = 70, confidence = 1\<rparr>] \<and>
   snd (snd (consume (fst (trackObject (ex_config OpticalFlow 20) (trackerEnv (ex_world 100 13))))
          [] NoText)) \<and>
   history (fst (runTracking (ex_world 100 13) (ex_config OpticalFlow 20) ex_track 10 ex_session)) =
     [AutoTrackBatch [\<lparr>pt_frame = 11, pt_x = 121, pt_y = 70\<rparr>,
                      \<lparr>pt_frame = 12, pt_x = 122, pt_y = 70\<rparr>]] \<and>
   (\<exists>tr'. track (fst (runTracking (ex_world 100 13) (ex_config OpticalFlow 20) ex_track 10
                         ex_session)) = Some tr' \<and>
      points tr' 10 = None \<and>
      points tr' 11 = Some \<lparr>pt_frame = 11, pt_x = 121, pt_y = 70\<rparr> \<and>
      points tr' 12 = Some \<lparr>pt_frame = 12, pt_x = 122, pt_y = 70\<rparr> \<and>
      points tr' 13 = None)"
proof -
  let ?is = "fst (trackObject (ex_config OpticalFlow 20) (trackerEnv (ex_world 100 13)))"
  let ?r11 = "\<lparr>frameNumber = 11, x = 121, y = 70, confidence = 1\<rparr>"
  let ?r12 = "\<lparr>frameNumber = 12, x = 122, y = 70, confidence = 1\<rparr>"
  let ?p11 = "\<lparr>pt_frame = 11, pt_x = 121, pt_y = 70\<rparr>"
  let ?p12 = "\<lparr>pt_frame = 12, pt_x = 122, pt_y = 70\<rparr>"
  have acc: "accepted ?is = [?r11, ?r12]"
    by code_simp
  have low: "\<exists>r\<in>set (results_of ?is). confidence r < 1 / 2"
    by code_simp
  have added: "List.map_filter (commit_point (timeline ex_session)) [?r11, ?r12] = [?p11, ?p12]"
    by (simp add: List.map_filter_simps commit_point_def ex_session_def)
  have wf: "\<forall>f p. points ex_track f = Some p \<longrightarrow> pt_frame p = f"
    by (auto simp: ex_track_def split: if_splits)
  have old: "points ex_track 10 = None" "points ex_track 13 = None" "history ex_session = []"
    by (simp_all add: ex_track_def ex_session_def)
  note inst = accepted_results_committed [where config = "ex_config OpticalFlow 20"
      and w = "ex_world 100 13" and s = ex_session and tr = ex_track and tx = NoText
      and originalFrame = 10]
  have ne: "accepted ?is \<noteq> []"
    by (simp add: acc)
  from inst [THEN conjunct1] have con: "fst (consume ?is [] NoText) = [?r11, ?r12]"
    unfolding accepted_def [symmetric] acc .
  from inst [THEN conjunct2, THEN conjunct2, THEN conjunct1] low
  have brk: "snd (snd (consume ?is [] NoText))"
    by blast
  from inst [THEN conjunct2, THEN conjunct2, THEN conjunct2, THEN conjunct1] ne
  have "history (fst (runTracking (ex_world 100 13) (ex_config OpticalFlow 20) ex_track 10
        ex_session)) =
      history ex_session @
        [AutoTrackBatch (List.map_filter (commit_point (timeline ex_session)) (accepted ?is))]"
    by blast
  then have hist: "history (fst (runTracking (ex_world 100 13) (ex_config OpticalFlow 20)
        ex_track 10 ex_session)) = history ex_session @ [AutoTrackBatch [?p11, ?p12]]"
    unfolding acc added .
  from inst [THEN conjunct2, THEN conjunct2, THEN conjunct2, THEN conjunct2] ne wf
  have "\<exists>tr'. track (fst (runTracking (ex_world 100 13) (ex_config OpticalFlow 20) ex_track 10
        ex_session)) = Some tr' \<and>
      points tr' = points ex_track ++ map_of (rev (map (\<lambda>p. (pt_frame p, p))
        (List.map_filter (commit_point (timeline ex_session)) (accepted ?is))))"
    by blast
  then obtain tr' where
    tr': "track (fst (runTracking (ex_world 100 13) (ex_config OpticalFlow 20) ex_track 10
        ex_session)) = Some tr'"
    and pts: "points tr' = points ex_track ++ map_of (rev (map (\<lambda>p. (pt_frame p, p)) [?p11, ?p12]))"
    unfolding acc added by blast
  from pts old have "points tr' 10 = None" "points tr' 11 = Some ?p11"
    "points tr' 12 = Some ?p12" "points tr' 13 = None"
    by (simp_all add: map_add_def)
  with acc con brk hist tr' old show ?thesis
    by simp
qed

text \<open>
  C3 as stated fails when the timeline lacks the frame of an accumulated result. On the
  timeline whose frames are numbered 0 to 14 and whose frame count is 15, the range 10 to
  15 passes the validation and all five results are accumulated, with confidence 1; the
  result of frame 15 has no frame, and the commit skips it: four points are committed,
  none at frame 15.
\<close>

theorem result_without_frame_counterexample:
  "validate ex_parseInt (ex_data ''10'' ''15'') (frameCount (timeline ex_session_short)) =
     Inr (10, 15, 20) \<and>
   map frameNumber (accepted (fst (trackObject (ex_config OpticalFlow 20)
       (trackerEnv (ex_world 100 100))))) = [11, 12, 13, 14, 15] \<and>
   \<not> (case autoTrackSubmit (ex_world 100 100) (Some (ex_data ''10'' ''15'')) ex_session_short of
         (s', alerts, out) \<Rightarrow>
           history s' =
             [AutoTrackBatch (map point_of (accepted (fst (trackObject (ex_config OpticalFlow 20)
                (trackerEnv (ex_world 100 100))))))]) \<and>
   (case autoTrackSubmit (ex_world 100 100) (Some (ex_data ''10'' ''15'')) ex_session_short of
      (s', alerts, out) \<Rightarrow>
        out = Finished \<and>
        history s' =
          [AutoTrackBatch [\<lparr>pt_frame = 11, pt_x = 121, pt_y = 70\<rparr>,
                           \<lparr>pt_frame = 12, pt_x = 122, pt_y = 70\<rparr>,
                           \<lparr>pt_frame = 13, pt_x = 123, pt_y = 70\<rparr>,
                           \<lparr>pt_frame = 14, pt_x = 124, pt_y = 70\<rparr>]] \<and>
        (case track s' of None \<Rightarrow> False | Some tr' \<Rightarrow> points tr' 15 = None))"
  by code_simp

section \<open>No accepted result: the commit is skipped\<close>

text \<open>
  C10. When the consumption loop leaves no accumulated result, the commit is skipped: the
  track (its points and its table), the frames of the timeline, the active frames and the
  undo history are as before the session. The cleanup runs all the same: the playhead is
  set back to the original frame, the detached video is removed, the submit button is
  enabled and relabelled, the modal is emptied, hidden and cleared, and the ROI overlay
  and the selected region are removed.
\<close>

theorem no_accepted_result_skips_commit:
  "fst (consume (fst (trackObject config (trackerEnv w))) [] (modalText s)) = [] \<longrightarrow>
     track (fst (runTracking w config tr originalFrame s)) = track s \<and>
     history (fst (runTracking w config tr originalFrame s)) = history s \<and>
     frames (timeline (fst (runTracking w config tr originalFrame s))) = frames (timeline s) \<and>
     activeFrames (timeline (fst (runTracking w config tr originalFrame s))) =
       activeFrames (timeline s) \<and>
     frameCount (timeline (fst (runTracking w config tr originalFrame s))) =
       frameCount (timeline s) \<and>
     currentFrame (timeline (fst (runTracking w config tr originalFrame s))) = originalFrame \<and>
     \<not> trackingVideo (fst (runTracking w config tr originalFrame s)) \<and>
     submitButton (fst (runTracking w config tr originalFrame s)) =
       map_option (\<lambda>b. b\<lparr>disabled := False, innerText := ''Track''\<rparr>) (submitButton s) \<and>
     modalText (fst (runTracking w config tr originalFrame s)) = NoText \<and>
     \<not> modalShown (fst (runTracking w config tr originalFrame s)) \<and>
     \<not> modalFields (fst (runTracking w config tr originalFrame s)) \<and>
     \<not> roiShape (fst (runTracking w config tr originalFrame s)) \<and>
     currentROI (fst (runTracking w config tr originalFrame s)) = None \<and>
     \<not> addBackground (fst (runTracking w config tr originalFrame s)) \<and>
     stageCursor (fst (runTracking w config tr originalFrame s)) = Default \<and>
     stateMode (fst (runTracking w config tr originalFrame s)) = DefaultMode"
proof
  assume none: "fst (consume (fst (trackObject config (trackerEnv w))) [] (modalText s)) = []"
  obtain items fin where run: "trackObject config (trackerEnv w) = (items, fin)"
    by (cases "trackObject config (trackerEnv w)")
  obtain results tx broke where con: "consume items [] (modalText s) = (results, tx, broke)"
    by (cases "consume items [] (modalText s)")
  from none run con have res: "results = []" by simp
  have s': "fst (runTracking w config tr originalFrame s) =
      cleanup originalFrame
        (s\<lparr>submitButton :=
             map_option (\<lambda>b. b\<lparr>disabled := True, innerText := ''Tracking...''\<rparr>) (submitButton s),
           modalText := tx\<rparr>)"
    by (simp add: runTracking_def run con res commit_def Modal_setText_def Let_def)
  show "track (fst (runTracking w config tr originalFrame s)) = track s \<and>
     history (fst (runTracking w config tr originalFrame s)) = history s \<and>
     frames (timeline (fst (runTracking w config tr originalFrame s))) = frames (timeline s) \<and>
     activeFrames (timeline (fst (runTracking w config tr originalFrame s))) =
       activeFrames (timeline s) \<and>
     frameCount (timeline (fst (runTracking w config tr originalFrame s))) =
       frameCount (timeline s) \<and>
     currentFrame (timeline (fst (runTracking w config tr originalFrame s))) = originalFrame \<and>
     \<not> trackingVideo (fst (runTracking w config tr originalFrame s)) \<and>
     submitButton (fst (runTracking w config tr originalFrame s)) =
       map_option (\<lambda>b. b\<lparr>disabled := False, innerText := ''Track''\<rparr>) (submitButton s) \<and>
     modalText (fst (runTracking w config tr originalFrame s)) = NoText \<and>
     \<not> modalShown (fst (runTracking w config tr originalFrame s)) \<and>
     \<not> modalFields (fst (runTracking w config tr originalFrame s)) \<and>
     \<not> roiShape (fst (runTracking w config tr originalFrame s)) \<and>
     currentROI (fst (runTracking w config tr originalFrame s)) = None \<and>
     \<not> addBackground (fst (runTracking w config tr originalFrame s)) \<and>
     stageCursor (fst (runTracking w config tr originalFrame s)) = Default \<and>
     stateMode (fst (runTracking w config tr originalFrame s)) = DefaultMode"
    unfolding s'
    by (simp add: cleanup_def cleanupROISelection_def Modal_setText_def Modal_hide_def
        Modal_clear_def Timeline_seek_def Let_def option.map_comp comp_def)
qed

text \<open>
  The example cancelled before the first frame, from the state in which the handler
  starts tracking (the detached video exists): nothing is accumulated, the track keeps
  its one point, the history stays empty, and the session is cleaned up.
\<close>

theorem no_accepted_result_skips_commit_witness:
  "fst (consume (fst (trackObject (ex_config OpticalFlow 20) (trackerEnv (ex_world 11 100)))) []
          (modalText (ex_session\<lparr>trackingVideo := True\<rparr>))) = [] \<and>
   track (fst (runTracking (ex_world 11 100) (ex_config OpticalFlow 20) ex_track 10
                 (ex_session\<lparr>trackingVideo := True\<rparr>))) = Some ex_track \<and>
   history (fst (runTracking (ex_world 11 100) (ex_config OpticalFlow 20) ex_track 10
                 (ex_session\<lparr>trackingVideo := True\<rparr>))) = [] \<and>
   currentFrame (timeline (fst (runTracking (ex_world 11 100) (ex_config OpticalFlow 20) ex_track 10
                 (ex_session\<lparr>trackingVideo := True\<rparr>)))) = 10 \<and>
   \<not> trackingVideo (fst (runTracking (ex_world 11 100) (ex_config OpticalFlow 20) ex_track 10
                 (ex_session\<lparr>trackingVideo := True\<rparr>))) \<and>
   \<not> modalShown (fst (runTracking (ex_world 11 100) (ex_config OpticalFlow 20) ex_track 10
                 (ex_session\<lparr>trackingVideo := True\<rparr>))) \<and>
   \<not> roiShape (fst (runTracking (ex_world 11 100) (ex_config OpticalFlow 20) ex_track 10
                 (ex_session\<lparr>trackingVideo := True\<rparr>))) \<and>
   currentROI (fst (runTracking (ex_world 11 100) (ex_config OpticalFlow 20) ex_track 10
                 (ex_session\<lparr>trackingVideo := True\<rparr>))) = None"
proof -
  have none: "fst (consume (fst (trackObject (ex_config OpticalFlow 20) (trackerEnv (ex_world 11 100))))
      [] (modalText (ex_session\<lparr>trackingVideo := True\<rparr>))) = []"
    by code_simp
  have old: "track (ex_session\<lparr>trackingVideo := True\<rparr>) = Some ex_track"
    "history (ex_session\<lparr>trackingVideo := True\<rparr>) = []"
    by (simp_all add: ex_session_def)
  from no_accepted_result_skips_commit [of "ex_config OpticalFlow 20" "ex_world 11 100"
      "ex_session\<lparr>trackingVideo := True\<rparr>" ex_track 10] none old
  show ?thesis by simp
qed
section \<open>Undo and redo of the batch\<close>

lemma undo_points:
  "points (fold Point_remove ps tr) f = (if f \<in> pt_frame ` set ps then None else points tr f)"
  by (induction ps arbitrary: tr) (auto simp: Point_remove_def)

lemma redo_points:
  "distinct (map pt_frame ps) \<Longrightarrow>
     points (fold Point_unRemove ps tr) = points tr ++ map_of (map (\<lambda>p. (pt_frame p, p)) ps)"
proof (induction ps arbitrary: tr)
  case Nil
  then show ?case by simp
next
  case (Cons p ps)
  from Cons.prems have notin: "pt_frame p \<notin> fst ` set (map (\<lambda>p. (pt_frame p, p)) ps)"
    by (auto simp: image_iff)
  then have none: "map_of (map (\<lambda>p. (pt_frame p, p)) ps) (pt_frame p) = None"
    by (simp add: map_of_eq_None_iff)
  from Cons show ?case
    by (auto simp: Point_unRemove_def map_add_def none fun_eq_iff split: option.splits)
qed

text \<open>
  What undo leaves of the committed batch: the frames of the added points are empty,
  whatever they held before the session; the other frames are untouched. So undo restores
  the earlier \<open>track.points\<close> exactly when no added point took the place of an earlier
  one.
\<close>

lemma undo_batch_points:
  "points (undo (AutoTrackBatch ps) tr) f = (if f \<in> pt_frame ` set ps then None else points tr f)"
  by (simp add: undo_points)

text \<open>
  C1 on the example track, which has a point (3, 4) at frame 11: the user confirms the
  overwrite, the run over the frames 11 to 15 registers one action for its five points
  and replaces the point of frame 11; undoing that action leaves frame 11 without a
  point, where the specification has the point (3, 4) restored; redoing it puts the five
  points back.
\<close>

theorem undo_loses_overwritten_point:
  "points ex_track 11 = Some \<lparr>pt_frame = 11, pt_x = 3, pt_y = 4\<rparr> \<and>
   (case autoTrackSubmit (ex_world 100 100) (Some (ex_data ''10'' ''15'')) ex_session of
      (s', alerts, out) \<Rightarrow>
        out = Finished \<and> alerts = [OverwriteConfirm 1, TrackedAlert 5] \<and>
        history s' =
          [AutoTrackBatch [\<lparr>pt_frame = 11, pt_x = 121, pt_y = 70\<rparr>,
                           \<lparr>pt_frame = 12, pt_x = 122, pt_y = 70\<rparr>,
                           \<lparr>pt_frame = 13, pt_x = 123, pt_y = 70\<rparr>,
                           \<lparr>pt_frame = 14, pt_x = 124, pt_y = 70\<rparr>,
                           \<lparr>pt_frame = 15, pt_x = 125, pt_y = 70\<rparr>]] \<and>
        (case track s' of
           None \<Rightarrow> False
         | Some tr' \<Rightarrow>
             map (points tr') [10, 11, 12, 13, 14, 15, 16] =
               [None, Some \<lparr>pt_frame = 11, pt_x = 121, pt_y = 70\<rparr>,
                Some \<lparr>pt_frame = 12, pt_x = 122, pt_y = 70\<rparr>,
                Some \<lparr>pt_frame = 13, pt_x = 123, pt_y = 70\<rparr>,
                Some \<lparr>pt_frame = 14, pt_x = 124, pt_y = 70\<rparr>,
                Some \<lparr>pt_frame = 15, pt_x = 125, pt_y = 70\<rparr>, None] \<and>
             map (points (undo (last (history s')) tr')) [10, 11, 12, 13, 14, 15, 16] =
               [None, None, None, None, None, None, None] \<and>
             map (points (redo (last (history s')) (undo (last (history s')) tr')))
                 [10, 11, 12, 13, 14, 15, 16] =
               map (points tr') [10, 11, 12, 13, 14, 15, 16]))"
  by code_simp
end
